theory Spec2Isabelle
  imports Complex_Main "HOL-Library.Signed_Division"
begin

section \<open>The usage worker of timescale-usage (pkg/worker/worker.go)\<close>

text \<open>
  The worker measures hypertables and continuous aggregates of a TimescaleDB
  database, writes one row per object into the table \<open>usage\<close> of the usage schema,
  deletes the rows of objects that left the catalog, and mirrors the byte sizes in a
  Prometheus gauge vector.

  The embedding is shallow. The database behind the connection pool, the gauge
  vector, the standard logger and the wall clock are fields of explicit state
  records; every function of \<open>worker.go\<close> is a HOL function from state to state and
  result. A Go \<open>error\<close> result is an \<open>error option\<close> (\<open>None\<close> is \<open>nil\<close>), a panic is
  a result of its own.

  Numbers: \<open>int64\<close> values are HOL integers (the worker does no integer arithmetic
  on sizes, it only converts them). A \<open>time.Time\<close> is the number of nanoseconds
  since the epoch, a \<open>time.Duration\<close> a number of nanoseconds in the range of a
  signed 64-bit integer. \<open>float64\<close> is modelled by the real numbers: conversion,
  addition and division are exact, rounding to 53 bits is not modelled.
\<close>

subsection \<open>Values of the Go libraries\<close>

type_synonym Time = int
type_synonym Duration = int
type_synonym float64 = real

text \<open>
  Errors. \<open>pgx.ErrNoRows\<close> is a sentinel compared by identity; a \<open>pgx.PgError\<close>
  carries severity, message and SQLSTATE code and prints as
  \<open>SEVERITY: message (SQLSTATE code)\<close>; every other error is its message.
\<close>

datatype error =
    ErrNoRows
  | PgError string string string
  | OtherError string

fun Error :: "error \<Rightarrow> string" where
  "Error ErrNoRows = ''no rows in result set''"
| "Error (PgError severity message code) =
     severity @ '': '' @ message @ '' (SQLSTATE '' @ code @ '')''"
| "Error (OtherError message) = message"

text \<open>What a call gives back to its caller: it returns an error value, or it panics.\<close>

datatype outcome =
    Returned "error option"
  | Panicked string

text \<open>\<open>strings.Contains s substr\<close>: \<open>substr\<close> occurs in \<open>s\<close> as a contiguous run.\<close>

fun strings_Contains :: "string \<Rightarrow> string \<Rightarrow> bool" where
  "strings_Contains [] substr = (substr = [])"
| "strings_Contains (c # cs) substr =
     (take (length substr) (c # cs) = substr \<or> strings_Contains cs substr)"

text \<open>
  \<open>Time.Sub\<close>: the difference as a Duration; when it does not fit into 64 bits the
  result is the minimum or the maximum Duration.
\<close>

definition minDuration :: Duration where
  "minDuration = - (2 ^ 63)"

definition maxDuration :: Duration where
  "maxDuration = 2 ^ 63 - 1"

definition Hour :: Duration where
  "Hour = 60 * 60 * 1000000000"

definition time_Sub :: "Time \<Rightarrow> Time \<Rightarrow> Duration" where
  "time_Sub t u =
     (let d = t - u
      in if d < minDuration then minDuration
         else if maxDuration < d then maxDuration
         else d)"

text \<open>
  \<open>Duration.Hours\<close>: \<open>hour := d / Hour; nsec := d % Hour;
  return float64(hour) + float64(nsec)/(60*60*1e9)\<close>, with Go's truncating division.
\<close>

definition Duration_Hours :: "Duration \<Rightarrow> float64" where
  "Duration_Hours d =
     (let hour = d sdiv Hour;
          nsec = d smod Hour
      in real_of_int hour + real_of_int nsec / (60 * 60 * 1000000000))"

text \<open>
  \<open>Time.Format(time.RFC3339)\<close> prints the instant with whole seconds and its zone
  offset; the string is represented by the instant it denotes, in seconds.
\<close>

definition Format_RFC3339 :: "Time \<Rightarrow> int" where
  "Format_RFC3339 t = t div 1000000000"

text \<open>
  A \<open>timestamptz\<close> value as PostgreSQL stores it and \<open>pgtype.Timestamptz\<close> decodes
  it: NULL, one of the two infinities, or an instant. \<open>Get().(time.Time)\<close> yields
  the instant for an instant only; for NULL \<open>Get\<close> is \<open>nil\<close> and for an infinity it
  is the infinity modifier, and the type assertion panics.
\<close>

datatype Timestamptz =
    TsNegInfinity
  | TsTime Time
  | TsInfinity
  | TsNull

fun Get_Time :: "Timestamptz \<Rightarrow> Time option" where
  "Get_Time (TsTime t) = Some t"
| "Get_Time _ = None"

text \<open>
  \<open>ORDER BY time ASC\<close>: \<open>-infinity\<close> sorts before every instant, \<open>infinity\<close> after,
  and NULL last.
\<close>

fun ts_before :: "Timestamptz \<Rightarrow> Timestamptz \<Rightarrow> bool" where
  "ts_before TsNull _ = False"
| "ts_before _ TsNull = True"
| "ts_before TsInfinity _ = False"
| "ts_before _ TsInfinity = True"
| "ts_before (TsTime a) (TsTime b) = (a < b)"
| "ts_before (TsTime a) TsNegInfinity = False"
| "ts_before TsNegInfinity (TsTime b) = True"
| "ts_before TsNegInfinity TsNegInfinity = False"

text \<open>\<open>pgtype.Int8\<close> after a scan: NULL or an \<open>int64\<close>; \<open>Get\<close> is \<open>nil\<close> for NULL.\<close>

type_synonym Int8 = "int option"

subsection \<open>The database behind the connection pool\<close>

text \<open>
  A row of \<open>timescaledb_information.hypertables\<close> or \<open>continuous_aggregates\<close>,
  together with what \<open>hypertable_approximate_size\<close> reports for it.
\<close>

record catalog_row =
  obj_schema :: string
  obj_name :: string
  approximate_size :: Int8

text \<open>A row of the table \<open>usage\<close>; the column \<open>table\<close> is its primary key.\<close>

record usage_row =
  table_name :: string
  bytes :: int
  updated_at :: int
  bytes_per_day :: float64

text \<open>
  The statements the worker sends. Each one stands for the SQL text that
  \<open>worker.go\<close> builds, with the interpolated values as arguments.
\<close>

datatype statement =
    SelectHypertables
  | SelectContinuousAggregates
  | SelectFirstTime string string
  | InsertUsage string string int int float64
  | DeleteOutdated string string
  | Migrate string

text \<open>
  The pool: the two catalog views, the \<open>time\<close> column of every relation (\<open>None\<close>
  for a relation that does not exist), the usage table, the failures that the
  calls on the pool are going to meet (one entry per call that can fail: connect,
  \<open>Query\<close>, \<open>Scan\<close> of a row, \<open>QueryRow\<close>, \<open>Exec\<close>; \<open>None\<close> for a call that goes
  through; no failure once the list is used up), and the statements sent so far.
  The catalog and the relations are those of one moment: an object that is listed
  and whose relation is \<open>None\<close> is an object dropped after the listing.
\<close>

record ConnPool =
  hypertables :: "catalog_row list"
  continuous_aggregates :: "catalog_row list"
  relations :: "string \<times> string \<Rightarrow> Timestamptz list option"
  usage :: "usage_row list"
  faults :: "error option list"
  sent :: "statement list"

definition round_trip :: "ConnPool \<Rightarrow> statement \<Rightarrow> ConnPool \<times> error option" where
  "round_trip c stmt =
     (let c1 = c\<lparr>sent := sent c @ [stmt]\<rparr>
      in case faults c of
           [] \<Rightarrow> (c1, None)
         | f # fs \<Rightarrow> (c1\<lparr>faults := fs\<rparr>, f))"

text \<open>
  \<open>INSERT INTO usage ... ON CONFLICT ("table") DO UPDATE SET bytes, updated_at,
  bytes_per_day\<close>: the row with this key is overwritten, or the row is added.
\<close>

definition insert_on_conflict :: "usage_row list \<Rightarrow> usage_row \<Rightarrow> usage_row list" where
  "insert_on_conflict rows r =
     (if table_name r \<in> set (map table_name rows)
      then map (\<lambda>x. if table_name x = table_name r
                     then x\<lparr>bytes := bytes r, updated_at := updated_at r,
                            bytes_per_day := bytes_per_day r\<rparr>
                     else x) rows
      else rows @ [r])"

text \<open>
  \<open>DELETE FROM usage WHERE "table" NOT IN (SELECT hypertable_name ... WHERE
  hypertable_schema = s) AND "table" NOT IN (SELECT view_name ... WHERE view_schema = s)\<close>.
\<close>

definition names_in_schema :: "string \<Rightarrow> catalog_row list \<Rightarrow> string list" where
  "names_in_schema s cat = map obj_name (filter (\<lambda>r. obj_schema r = s) cat)"

definition delete_outdated :: "ConnPool \<Rightarrow> string \<Rightarrow> usage_row list" where
  "delete_outdated c s =
     filter (\<lambda>r. \<not> (table_name r \<notin> set (names_in_schema s (hypertables c))
                   \<and> table_name r \<notin> set (names_in_schema s (continuous_aggregates c))))
       (usage c)"

text \<open>
  \<open>SELECT time FROM "schema"."table" ORDER BY time ASC LIMIT 1\<close> on the rows of an
  existing relation.
\<close>

definition first_time :: "Timestamptz list \<Rightarrow> Timestamptz option" where
  "first_time col =
     (case col of
        [] \<Rightarrow> None
      | x # xs \<Rightarrow> Some (foldl (\<lambda>m y. if ts_before y m then y else m) x xs))"

definition undefined_table :: "string \<Rightarrow> string \<Rightarrow> error" where
  "undefined_table schema table =
     PgError ''ERROR'' (''relation \"'' @ schema @ ''.'' @ table @ ''\" does not exist'') ''42P01''"

text \<open>\<open>ConnPool.Exec\<close>: the statement changes the usage table unless the round trip fails.\<close>

definition Exec :: "ConnPool \<Rightarrow> statement \<Rightarrow> ConnPool \<times> error option" where
  "Exec c stmt =
     (case round_trip c stmt of
        (c1, Some err) \<Rightarrow> (c1, Some err)
      | (c1, None) \<Rightarrow>
          (case stmt of
             InsertUsage us table b upd bpd \<Rightarrow>
               (c1\<lparr>usage := insert_on_conflict (usage c1)
                     \<lparr>table_name = table, bytes = b, updated_at = upd, bytes_per_day = bpd\<rparr>\<rparr>,
                None)
           | DeleteOutdated us src \<Rightarrow> (c1\<lparr>usage := delete_outdated c1 src\<rparr>, None)
           | _ \<Rightarrow> (c1, None)))"

text \<open>\<open>ConnPool.Query\<close> for the two catalog listings.\<close>

definition Query :: "ConnPool \<Rightarrow> statement \<Rightarrow> ConnPool \<times> (error + catalog_row list)" where
  "Query c stmt =
     (case round_trip c stmt of
        (c1, Some err) \<Rightarrow> (c1, Inl err)
      | (c1, None) \<Rightarrow>
          (case stmt of
             SelectHypertables \<Rightarrow> (c1, Inr (hypertables c1))
           | SelectContinuousAggregates \<Rightarrow> (c1, Inr (continuous_aggregates c1))
           | _ \<Rightarrow> (c1, Inr [])))"

text \<open>
  \<open>ConnPool.QueryRow(...).Scan(&pgdate)\<close> for the first value of \<open>time\<close>: the error of
  the round trip, SQLSTATE 42P01 for a relation that does not exist,
  \<open>pgx.ErrNoRows\<close> for an empty one.
\<close>

definition QueryRow_Scan :: "ConnPool \<Rightarrow> string \<Rightarrow> string \<Rightarrow> ConnPool \<times> (error + Timestamptz)" where
  "QueryRow_Scan c schema table =
     (case round_trip c (SelectFirstTime schema table) of
        (c1, Some err) \<Rightarrow> (c1, Inl err)
      | (c1, None) \<Rightarrow>
          (case relations c1 (schema, table) of
             None \<Rightarrow> (c1, Inl (undefined_table schema table))
           | Some col \<Rightarrow>
               (case first_time col of
                  None \<Rightarrow> (c1, Inl ErrNoRows)
                | Some v \<Rightarrow> (c1, Inr v))))"

text \<open>
  \<open>Rows.Scan(&schema, &table, &size)\<close> on a row of a catalog listing: the three
  columns of the row, or the failure that the call meets.
\<close>

definition Rows_Scan :: "ConnPool \<Rightarrow> catalog_row \<Rightarrow> ConnPool \<times> (error + string \<times> string \<times> Int8)" where
  "Rows_Scan c row =
     (case faults c of
        Some err # fs \<Rightarrow> (c\<lparr>faults := fs\<rparr>, Inl err)
      | None # fs \<Rightarrow> (c\<lparr>faults := fs\<rparr>, Inr (obj_schema row, obj_name row, approximate_size row))
      | [] \<Rightarrow> (c, Inr (obj_schema row, obj_name row, approximate_size row)))"

subsection \<open>The worker\<close>

text \<open>
  Modelled from the spec: the type \<open>configuration.Config\<close> is declared in the package
  \<open>pkg/configuration\<close>, which is not among the sources at hand. The fields are the
  ones \<open>worker.go\<close> reads: the connection parameters, the schema of the measured
  objects, the schema of the usage table, and the collection interval, a string
  whose absence (the empty string) means one cycle only.
\<close>

record Config =
  PostgresHost :: string
  PostgresPort :: nat
  PostgresDb :: string
  PostgresUser :: string
  PostgresPw :: string
  PostgresUsageSchema :: string
  PostgresSourceSchema :: string
  Duration :: string

text \<open>
  A line of the standard logger: \<open>log.Println\<close> of a string, or the
  \<open>log.Printf("%v %v %v\n", table, tableSizeBytes, bytesPerDay)\<close> of \<open>upsert\<close>.
\<close>

datatype log_line =
    Println string
  | Printf string int float64

text \<open>
  The struct \<open>Worker\<close>: pool, configuration and gauge vector (a map from the label
  value to the gauge value). The lines logged so far and the reading of the wall
  clock are process-wide in Go and travel with the worker here. \<open>time.Now()\<close> reads
  the clock; the worker never sets it.
\<close>

record Worker =
  conn :: ConnPool
  config :: Config
  bytesMetrics :: "string \<rightharpoonup> float64"
  stdlog :: "log_line list"
  wallclock :: Time

definition log_Println :: "Worker \<Rightarrow> string \<Rightarrow> Worker" where
  "log_Println w s = w\<lparr>stdlog := stdlog w @ [Println s]\<rparr>"

definition log_Printf :: "Worker \<Rightarrow> string \<Rightarrow> int \<Rightarrow> float64 \<Rightarrow> Worker" where
  "log_Printf w table n x = w\<lparr>stdlog := stdlog w @ [Printf table n x]\<rparr>"

definition time_Now :: "Worker \<Rightarrow> Time" where
  "time_Now w = wallclock w"

definition errIsTableDoesNotExist :: "error \<Rightarrow> bool" where
  "errIsTableDoesNotExist err = strings_Contains (Error err) ''SQLSTATE 42P01''"

text \<open>\<open>Worker.upsert\<close>.\<close>

definition upsert :: "Worker \<Rightarrow> string \<Rightarrow> string \<Rightarrow> Int8 \<Rightarrow> Worker \<times> outcome" where
  "upsert w schema table size' =
     (let now = time_Now w;
          tableSizeBytes = (case size' of None \<Rightarrow> 0 | Some n \<Rightarrow> n);
          (c1, scanned) = QueryRow_Scan (conn w) schema table;
          w1 = w\<lparr>conn := c1\<rparr>;
          first = (case scanned of
                     Inl err \<Rightarrow> if err \<noteq> ErrNoRows then Inl (Returned (Some err)) else Inr now
                   | Inr pgdate \<Rightarrow>
                       (case Get_Time pgdate of
                          None \<Rightarrow> Inl (Panicked ''interface conversion: interface {} is not time.Time'')
                        | Some t \<Rightarrow> Inr t))
      in case first of
           Inl out \<Rightarrow> (w1, out)
         | Inr firstDate \<Rightarrow>
             (let days = Duration_Hours (time_Sub now firstDate) / 24;
                  bytesPerDay = (if days \<noteq> 0 then real_of_int tableSizeBytes / days else 0);
                  w2 = log_Printf w1 table tableSizeBytes bytesPerDay;
                  nowStr = Format_RFC3339 now;
                  (c3, err) = Exec (conn w2)
                    (InsertUsage (PostgresUsageSchema (config w2)) table tableSizeBytes nowStr
                       bytesPerDay);
                  w3 = w2\<lparr>conn := c3\<rparr>
              in if err \<noteq> None then (w3, Returned err)
                 else (w3\<lparr>bytesMetrics := (bytesMetrics w3)(table \<mapsto> real_of_int tableSizeBytes)\<rparr>,
                       Returned None)))"

text \<open>The loop \<open>for rows.Next() { ... }\<close> of \<open>upsertWithQuery\<close>, over the rows of the listing.\<close>

fun upsert_rows :: "Worker \<Rightarrow> catalog_row list \<Rightarrow> Worker \<times> outcome" where
  "upsert_rows w [] = (w, Returned None)"
| "upsert_rows w (row # rows) =
     (case Rows_Scan (conn w) row of
        (c1, Inl err) \<Rightarrow> (w\<lparr>conn := c1\<rparr>, Returned (Some err))
      | (c1, Inr (schema, table, size')) \<Rightarrow>
          (case upsert (w\<lparr>conn := c1\<rparr>) schema table size' of
             (w2, Returned (Some err)) \<Rightarrow>
               if errIsTableDoesNotExist err
               then upsert_rows
                      (log_Println w2 (''WARNING: Table '' @ table @ '' seems to no longer exist''))
                      rows
               else (w2, Returned (Some err))
           | (w2, Returned None) \<Rightarrow> upsert_rows w2 rows
           | (w2, Panicked p) \<Rightarrow> (w2, Panicked p)))"

definition upsertWithQuery :: "Worker \<Rightarrow> statement \<Rightarrow> Worker \<times> outcome" where
  "upsertWithQuery w query =
     (case Query (conn w) query of
        (c1, Inl err) \<Rightarrow> (w\<lparr>conn := c1\<rparr>, Returned (Some err))
      | (c1, Inr rows) \<Rightarrow> upsert_rows (w\<lparr>conn := c1\<rparr>) rows)"

definition upsertTables :: "Worker \<Rightarrow> Worker \<times> outcome" where
  "upsertTables w = upsertWithQuery w SelectHypertables"

definition upsertViews :: "Worker \<Rightarrow> Worker \<times> outcome" where
  "upsertViews w = upsertWithQuery w SelectContinuousAggregates"

text \<open>\<open>Worker.run\<close>, one cycle.\<close>

definition run :: "Worker \<Rightarrow> Worker \<times> outcome" where
  "run w =
     (let w0 = log_Println w ''Starting Update..''
      in case upsertTables w0 of
           (w1, Returned None) \<Rightarrow>
             (case upsertViews w1 of
                (w2, Returned None) \<Rightarrow>
                  (let w3 = log_Println w2 ''Cleanup'';
                       (c4, err) = Exec (conn w3)
                         (DeleteOutdated (PostgresUsageSchema (config w3))
                            (PostgresSourceSchema (config w3)));
                       w4 = w3\<lparr>conn := c4\<rparr>
                   in if err \<noteq> None then (w4, Returned err)
                      else (log_Println w4 ''Done'', Returned None))
              | (w2, out) \<Rightarrow> (w2, out))
         | (w1, out) \<Rightarrow> (w1, out))"

subsection \<open>The scheduler\<close>

text \<open>
  \<open>pgx.NewConnPool\<close> connects, which is a round trip that can fail, and sends no
  statement.
\<close>

definition NewConnPool :: "ConnPool \<Rightarrow> ConnPool \<times> error option" where
  "NewConnPool c =
     (case faults c of
        [] \<Rightarrow> (c, None)
      | f # fs \<Rightarrow> (c\<lparr>faults := fs\<rparr>, f))"

text \<open>
  Modelled from the spec: \<open>Worker.migrate\<close> is defined in a file of the package that is
  not among the sources at hand. By the spec it ensures, idempotently, that the usage
  schema and its table exist, and its failure is fatal. The usage table of the pool
  is there from the start, so the statement changes nothing.
\<close>

definition migrate :: "Worker \<Rightarrow> Worker \<times> error option" where
  "migrate w =
     (case Exec (conn w) (Migrate (PostgresUsageSchema (config w))) of
        (c1, err) \<Rightarrow> (w\<lparr>conn := c1\<rparr>, err))"

text \<open>
  The loop \<open>for { select { case <-ticker.C: ... case <-ctx.Done(): ... } }\<close>. Its
  argument is the sequence of cases the \<open>select\<close> takes, one per iteration. When
  the sequence is used up the \<open>select\<close> blocks and the loop has not returned: the
  result is \<open>None\<close>.
\<close>

datatype select_case = TickerC | CtxDone

fun ticker_loop :: "Worker \<Rightarrow> select_case list \<Rightarrow> Worker \<times> outcome option" where
  "ticker_loop w [] = (w, None)"
| "ticker_loop w (TickerC # cases) =
     (case run w of
        (w1, Returned None) \<Rightarrow> ticker_loop w1 cases
      | (w1, out) \<Rightarrow> (w1, Some out))"
| "ticker_loop w (CtxDone # cases) = (w, Some (Returned None))"

text \<open>
  \<open>Start\<close>. \<open>time.ParseDuration\<close> is a parameter; \<open>time.NewTicker\<close> panics for an
  interval that is not positive. The pool given is the database that
  \<open>NewConnPool\<close> connects to, the gauge vector is new and empty. The argument \<open>ctx\<close>
  stands for the context and the ticker together: it is the sequence of cases that
  the \<open>select\<close> of the loop takes.
\<close>

definition Start ::
  "(string \<Rightarrow> error + Duration) \<Rightarrow> select_case list \<Rightarrow> Config \<Rightarrow> ConnPool \<Rightarrow> Time
     \<Rightarrow> Worker \<times> outcome option" where
  "Start ParseDuration ctx cfg pool clock =
     (let (c0, err0) = NewConnPool pool;
          w = \<lparr>conn = c0, config = cfg, bytesMetrics = Map.empty, stdlog = [],
               wallclock = clock\<rparr>
      in if err0 \<noteq> None then (w, Some (Returned err0))
         else
           (case migrate w of
              (w1, Some err) \<Rightarrow> (w1, Some (Returned (Some err)))
            | (w1, None) \<Rightarrow>
                if length (Duration cfg) = 0
                then (case run w1 of (w2, out) \<Rightarrow> (w2, Some out))
                else
                  (case ParseDuration (Duration cfg) of
                     Inl err \<Rightarrow> (w1, Some (Returned (Some err)))
                   | Inr d \<Rightarrow>
                       if d \<le> 0
                       then (w1, Some (Panicked ''non-positive interval for NewTicker''))
                       else
                         (case run w1 of
                            (w2, Returned None) \<Rightarrow> ticker_loop w2 ctx
                          | (w2, out) \<Rightarrow> (w2, Some out)))))"

subsection \<open>Observations on a run\<close>

text \<open>
  The statements of one call of \<open>upsert\<close>: the query for the first value of \<open>time\<close>,
  which every call sends first and exactly once, and the insert.
\<close>

fun is_upsert_statement :: "statement \<Rightarrow> bool" where
  "is_upsert_statement (SelectFirstTime schema table) = True"
| "is_upsert_statement (InsertUsage us table b upd bpd) = True"
| "is_upsert_statement _ = False"

fun is_upsert_attempt :: "statement \<Rightarrow> bool" where
  "is_upsert_attempt (SelectFirstTime schema table) = True"
| "is_upsert_attempt _ = False"

fun is_delete :: "statement \<Rightarrow> bool" where
  "is_delete (DeleteOutdated us src) = True"
| "is_delete _ = False"

definition attempt_of :: "catalog_row \<Rightarrow> statement" where
  "attempt_of row = SelectFirstTime (obj_schema row) (obj_name row)"

text \<open>
  The order of a cycle, as a condition on the statements it sends: the listing of
  the hypertables, upserts, the listing of the continuous aggregates, upserts, the
  delete, and nothing after it. The first argument is the phase reached.
\<close>

fun follows_order :: "nat \<Rightarrow> statement list \<Rightarrow> bool" where
  "follows_order p [] = True"
| "follows_order p (SelectHypertables # tr) = (p = 0 \<and> follows_order 1 tr)"
| "follows_order p (SelectFirstTime schema table # tr) = ((p = 1 \<or> p = 2) \<and> follows_order p tr)"
| "follows_order p (InsertUsage us table b upd bpd # tr) = ((p = 1 \<or> p = 2) \<and> follows_order p tr)"
| "follows_order p (SelectContinuousAggregates # tr) = (p = 1 \<and> follows_order 2 tr)"
| "follows_order p (DeleteOutdated us src # tr) = (p = 2 \<and> follows_order 3 tr)"
| "follows_order p (Migrate us # tr) = False"

text \<open>The cycles started so far: \<open>run\<close> logs \<open>Starting Update..\<close> first of all.\<close>

definition cycles_started :: "Worker \<Rightarrow> nat" where
  "cycles_started w = length (filter (\<lambda>l. l = Println ''Starting Update..'') (stdlog w))"

text \<open>
  No failures: every round trip goes through, and no listed object has NULL or an
  infinity as the first value of its \<open>time\<close> column.
\<close>

definition time_column_ok :: "ConnPool \<Rightarrow> catalog_row \<Rightarrow> bool" where
  "time_column_ok c row =
     (case relations c (obj_schema row, obj_name row) of
        None \<Rightarrow> True
      | Some col \<Rightarrow> (case first_time col of None \<Rightarrow> True | Some v \<Rightarrow> Get_Time v \<noteq> None))"

definition zero_failures :: "ConnPool \<Rightarrow> bool" where
  "zero_failures c =
     (list_all (\<lambda>f. f = None) (faults c)
      \<and> list_all (time_column_ok c) (hypertables c @ continuous_aggregates c))"

text \<open>
  What stays as it is while objects are measured: configuration, clock, catalog and
  relations; no gauge is removed, no cycle is started, and only statements of
  \<open>upsert\<close> are sent.
\<close>

definition measuring :: "Worker \<Rightarrow> Worker \<Rightarrow> bool" where
  "measuring w w' =
     (config w' = config w \<and> wallclock w' = wallclock w
      \<and> hypertables (conn w') = hypertables (conn w)
      \<and> continuous_aggregates (conn w') = continuous_aggregates (conn w)
      \<and> relations (conn w') = relations (conn w)
      \<and> dom (bytesMetrics w) \<subseteq> dom (bytesMetrics w')
      \<and> cycles_started w' = cycles_started w
      \<and> (\<exists>tr. sent (conn w') = sent (conn w) @ tr \<and> list_all is_upsert_statement tr))"

text \<open>
  The worker that \<open>Start\<close> has built once it is connected and \<open>migrate\<close> has returned,
  both round trips having gone through.
\<close>

definition started :: "Config \<Rightarrow> ConnPool \<Rightarrow> Time \<Rightarrow> Worker" where
  "started cfg pool clock =
     \<lparr>conn = pool\<lparr>sent := sent pool @ [Migrate (PostgresUsageSchema cfg)],
                   faults := drop 2 (faults pool)\<rparr>,
      config = cfg, bytesMetrics = Map.empty, stdlog = [], wallclock = clock\<rparr>"

subsection \<open>Example databases\<close>

definition sensor_config :: Config where
  "sensor_config = \<lparr>PostgresHost = ''localhost'', PostgresPort = 5432, PostgresDb = ''postgres'',
     PostgresUser = ''postgres'', PostgresPw = ''postgres'', PostgresUsageSchema = ''usage'',
     PostgresSourceSchema = ''src'', Duration = []\<rparr>"

definition sensor_pool :: ConnPool where
  "sensor_pool = \<lparr>
     hypertables = [\<lparr>obj_schema = ''src'', obj_name = ''sensor_data'',
                     approximate_size = Some 1048576\<rparr>],
     continuous_aggregates = [],
     relations = (\<lambda>_. None)((''src'', ''sensor_data'') \<mapsto>
                   [TsTime 1699913600000000000, TsTime 1699827200000000000]),
     usage = [], faults = [], sent = []\<rparr>"

definition sensor_worker :: Worker where
  "sensor_worker = \<lparr>conn = sensor_pool, config = sensor_config, bytesMetrics = Map.empty,
     stdlog = [], wallclock = 1700000000000000000\<rparr>"



text \<open>
  A database with two hypertables and one continuous aggregate in schema \<open>src\<close>:
  \<open>sensor_data\<close>, the new and empty \<open>new_table\<close> whose size is NULL, and \<open>forecast\<close>,
  whose first value of \<open>time\<close> lies a day after now. The usage table holds a row for
  \<open>old_table\<close>, which is no longer in the catalog.
\<close>

definition mixed_pool :: ConnPool where
  "mixed_pool = \<lparr>
     hypertables = [\<lparr>obj_schema = ''src'', obj_name = ''sensor_data'',
                     approximate_size = Some 1048576\<rparr>,
                    \<lparr>obj_schema = ''src'', obj_name = ''new_table'', approximate_size = None\<rparr>],
     continuous_aggregates = [\<lparr>obj_schema = ''src'', obj_name = ''forecast'',
                               approximate_size = Some 4096\<rparr>],
     relations = (\<lambda>_. None)(
       (''src'', ''sensor_data'') \<mapsto> [TsTime 1699913600000000000, TsTime 1699827200000000000],
       (''src'', ''new_table'') \<mapsto> [],
       (''src'', ''forecast'') \<mapsto> [TsTime 1700086400000000000]),
     usage = [\<lparr>table_name = ''old_table'', bytes = 5, updated_at = 1600000000,
               bytes_per_day = 1\<rparr>],
     faults = [], sent = []\<rparr>"

definition mixed_worker :: Worker where
  "mixed_worker = \<lparr>conn = mixed_pool, config = sensor_config, bytesMetrics = Map.empty,
     stdlog = [], wallclock = 1700000000000000000\<rparr>"

text \<open>
  A hypertable whose oldest row carries the zero value of \<open>time.Time\<close>, the first of
  January of the year 1 (62135596800 seconds before the epoch): more than 292 years
  before now.
\<close>

definition legacy_pool :: ConnPool where
  "legacy_pool = \<lparr>
     hypertables = [\<lparr>obj_schema = ''src'', obj_name = ''legacy'',
                     approximate_size = Some 1048576\<rparr>],
     continuous_aggregates = [],
     relations = (\<lambda>_. None)((''src'', ''legacy'') \<mapsto>
                   [TsTime 1699913600000000000, TsTime (- 62135596800000000000)]),
     usage = [], faults = [], sent = []\<rparr>"

definition legacy_worker :: Worker where
  "legacy_worker = \<lparr>conn = legacy_pool, config = sensor_config, bytesMetrics = Map.empty,
     stdlog = [], wallclock = 1700000000000000000\<rparr>"



section \<open>Auxiliary facts\<close>

subsection \<open>Strings, durations and the first timestamp\<close>

lemma strings_Contains_prefix: "strings_Contains (sub @ q) sub"
proof (cases "sub @ q")
  case Nil
  then show ?thesis by simp
next
  case (Cons c cs)
  have "take (length sub) (sub @ q) = sub" by simp
  then have "strings_Contains (c # cs) sub" unfolding Cons by simp
  then show ?thesis by (simp add: Cons)
qed

lemma strings_Contains_append: "strings_Contains (p @ sub @ q) sub"
proof (induction p)
  case Nil
  show ?case using strings_Contains_prefix by simp
next
  case (Cons c p)
  then show ?case by simp
qed

lemma errIsTableDoesNotExist_undefined_table:
  "errIsTableDoesNotExist (undefined_table schema table)"
proof -
  have "Error (undefined_table schema table) =
      (''ERROR: relation \"'' @ schema @ ''.'' @ table @ ''\" does not exist ('') @ ''SQLSTATE 42P01'' @ '')''"
    by (simp add: undefined_table_def)
  then show ?thesis
    unfolding errIsTableDoesNotExist_def using strings_Contains_append by metis
qed

lemma Duration_Hours_eq: "Duration_Hours d = real_of_int d / 3600000000000"
proof -
  have "d sdiv Hour * Hour + d smod Hour = d" by (rule sdiv_mult_smod_eq)
  then have "real_of_int d = real_of_int (d sdiv Hour) * real_of_int Hour + real_of_int (d smod Hour)"
    by (metis of_int_add of_int_mult)
  then show ?thesis
    by (simp add: Duration_Hours_def Let_def Hour_def field_simps)
qed

lemma foldl_min_instants:
  "foldl (\<lambda>m y. if ts_before y m then y else m) (TsTime a) (map TsTime ts) = TsTime (Min (insert a (set ts)))"
proof (induction ts arbitrary: a)
  case Nil
  show ?case by simp
next
  case (Cons t ts)
  have "Min (insert (if t < a then t else a) (set ts)) = Min (insert a (insert t (set ts)))"
  proof (cases "set ts = {}")
    case True
    then show ?thesis by (simp add: min_def)
  next
    case False
    define m where "m = Min (set ts)"
    have A: "Min (insert a (insert t (set ts))) = min a (min t m)"
      unfolding m_def using False
      by (simp only: Min_insert finite_insert List.finite_set insert_not_empty not_False_eq_True)
    have B: "Min (insert (if t < a then t else a) (set ts)) = min (if t < a then t else a) m"
      unfolding m_def using False Min_insert [of "set ts"] by blast
    have C: "min (if t < a then t else a) m = min a (min t m)"
      by (simp add: min_def)
    show ?thesis by (simp only: A B C)
  qed
  moreover have "(if t < a then TsTime t else TsTime a) = TsTime (if t < a then t else a)"
    by simp
  ultimately show ?case using Cons by simp
qed

lemma first_time_instants:
  "first_time (map TsTime ts) = (if ts = [] then None else Some (TsTime (Min (set ts))))"
  by (cases ts) (simp_all add: first_time_def foldl_min_instants)


subsection \<open>Calls that go through and calls that fail\<close>

lemma round_trip_ok:
  "set (take 1 (faults c)) \<subseteq> {None} \<Longrightarrow>
   round_trip c stmt = (c\<lparr>sent := sent c @ [stmt], faults := drop 1 (faults c)\<rparr>, None)"
  by (cases "faults c") (simp_all add: round_trip_def Let_def)

lemma round_trip_fail:
  "faults c = Some err # fs \<Longrightarrow>
   round_trip c stmt = (c\<lparr>sent := sent c @ [stmt], faults := fs\<rparr>, Some err)"
  by (simp add: round_trip_def Let_def)

lemma QueryRow_Scan_ok:
  assumes "set (take 1 (faults c)) \<subseteq> {None}"
  shows "QueryRow_Scan c schema table =
    (c\<lparr>sent := sent c @ [SelectFirstTime schema table], faults := drop 1 (faults c)\<rparr>,
     case relations c (schema, table) of
       None \<Rightarrow> Inl (undefined_table schema table)
     | Some col \<Rightarrow> (case first_time col of None \<Rightarrow> Inl ErrNoRows | Some v \<Rightarrow> Inr v))"
  unfolding QueryRow_Scan_def round_trip_ok [OF assms]
  by (simp split: option.splits)

lemma QueryRow_Scan_fail:
  assumes "faults c = Some err # fs"
  shows "QueryRow_Scan c schema table =
    (c\<lparr>sent := sent c @ [SelectFirstTime schema table], faults := fs\<rparr>, Inl err)"
  unfolding QueryRow_Scan_def round_trip_fail [OF assms] by simp

lemma Exec_InsertUsage_ok:
  assumes "set (take 1 (faults c)) \<subseteq> {None}"
  shows "Exec c (InsertUsage us table b upd bpd) =
    (c\<lparr>sent := sent c @ [InsertUsage us table b upd bpd], faults := drop 1 (faults c),
       usage := insert_on_conflict (usage c)
         \<lparr>table_name = table, bytes = b, updated_at = upd, bytes_per_day = bpd\<rparr>\<rparr>, None)"
  unfolding Exec_def round_trip_ok [OF assms] by simp

lemma Exec_fail:
  assumes "faults c = Some err # fs"
  shows "Exec c stmt = (c\<lparr>sent := sent c @ [stmt], faults := fs\<rparr>, Some err)"
  unfolding Exec_def round_trip_fail [OF assms] by simp

subsection \<open>The upsert of an object that can be measured\<close>

text \<open>
  When both round trips go through and the first value of \<open>time\<close> is an instant, or
  there is none, the state after \<open>upsert\<close> is known in full.
\<close>

lemma upsert_measured:
  assumes ok: "set (take 2 (faults (conn w))) \<subseteq> {None}"
    and rel: "relations (conn w) (schema, table) = Some col"
    and first: "first_time col = None \<and> T0 = wallclock w \<or> first_time col = Some (TsTime T0)"
    and S: "S = (case size' of None \<Rightarrow> 0 | Some n \<Rightarrow> n)"
    and days: "days = Duration_Hours (time_Sub (wallclock w) T0) / 24"
    and bpd: "bpd = (if days \<noteq> 0 then real_of_int S / days else 0)"
  shows "upsert w schema table size' =
    (w\<lparr>conn := (conn w)\<lparr>
         sent := sent (conn w) @ [SelectFirstTime schema table,
           InsertUsage (PostgresUsageSchema (config w)) table S (Format_RFC3339 (wallclock w)) bpd],
         faults := drop 2 (faults (conn w)),
         usage := insert_on_conflict (usage (conn w))
           \<lparr>table_name = table, bytes = S, updated_at = Format_RFC3339 (wallclock w),
            bytes_per_day = bpd\<rparr>\<rparr>,
       stdlog := stdlog w @ [Printf table S bpd],
       bytesMetrics := (bytesMetrics w)(table \<mapsto> real_of_int S)\<rparr>,
     Returned None)"
proof -
  define c1 where "c1 = (conn w)\<lparr>sent := sent (conn w) @ [SelectFirstTime schema table],
    faults := drop 1 (faults (conn w))\<rparr>"
  have ok1: "set (take 1 (faults (conn w))) \<subseteq> {None}"
    using ok by (cases "faults (conn w)") auto
  have ok2: "set (take 1 (faults c1)) \<subseteq> {None}"
    using ok unfolding c1_def by (cases "faults (conn w)"; cases "tl (faults (conn w))") auto
  have d2: "drop 1 (faults c1) = drop 2 (faults (conn w))"
    unfolding c1_def by (simp add: numeral_2_eq_2)
  have q: "QueryRow_Scan (conn w) schema table =
      (c1, if first_time col = None then Inl ErrNoRows else Inr (TsTime T0))"
    using first rel unfolding QueryRow_Scan_ok [OF ok1] c1_def by auto
  have e: "\<And>us b upd r. Exec c1 (InsertUsage us table b upd r) =
    (c1\<lparr>sent := sent c1 @ [InsertUsage us table b upd r],
       faults := drop 2 (faults (conn w)),
       usage := insert_on_conflict (usage c1)
         \<lparr>table_name = table, bytes = b, updated_at = upd, bytes_per_day = r\<rparr>\<rparr>, None)"
    unfolding Exec_InsertUsage_ok [OF ok2] d2 by simp
  have f: "first_time col = None \<Longrightarrow> T0 = wallclock w"
    using first by auto
  have "upsert w schema table size' =
    (w\<lparr>conn := c1\<lparr>
         sent := sent c1 @ [
           InsertUsage (PostgresUsageSchema (config w)) table S (Format_RFC3339 (wallclock w)) bpd],
         faults := drop 2 (faults (conn w)),
         usage := insert_on_conflict (usage c1)
           \<lparr>table_name = table, bytes = S, updated_at = Format_RFC3339 (wallclock w),
            bytes_per_day = bpd\<rparr>\<rparr>,
       stdlog := stdlog w @ [Printf table S bpd],
       bytesMetrics := (bytesMetrics w)(table \<mapsto> real_of_int S)\<rparr>,
     Returned None)"
    unfolding upsert_def q time_Now_def log_Printf_def
    by (cases "first_time col = None") (simp_all add: e Let_def S days bpd f)
  then show ?thesis by (simp add: c1_def)
qed


lemma find_updated_row:
  fixes r :: usage_row
  assumes "table_name r \<in> set (map table_name rows)"
  shows "find (\<lambda>x. table_name x = table_name r)
      (map (\<lambda>x. if table_name x = table_name r
                 then x\<lparr>bytes := bytes r, updated_at := updated_at r,
                        bytes_per_day := bytes_per_day r\<rparr>
                 else x) rows) = Some r"
  using assms by (induction rows) auto

lemma find_appended_row:
  fixes r :: usage_row
  assumes "table_name r \<notin> set (map table_name rows)"
  shows "find (\<lambda>x. table_name x = table_name r) (rows @ [r]) = Some r"
  using assms by (induction rows) auto

lemma find_insert_on_conflict:
  fixes r :: usage_row
  shows "find (\<lambda>x. table_name x = table_name r) (insert_on_conflict rows r) = Some r"
  unfolding insert_on_conflict_def
  using find_updated_row [of r rows] find_appended_row [of r rows] by presburger

subsection \<open>Differences of instants\<close>

lemma time_Sub_zero_iff: "time_Sub t u = 0 \<longleftrightarrow> t = u"
  by (simp add: time_Sub_def Let_def minDuration_def maxDuration_def)

lemma time_Sub_exact:
  "minDuration \<le> t - u \<Longrightarrow> t - u \<le> maxDuration \<Longrightarrow> time_Sub t u = t - u"
  by (simp add: time_Sub_def Let_def)

subsection \<open>The three ways an upsert ends\<close>

text \<open>
  Whatever the database and the connection do, \<open>upsert\<close> ends before the insert (with
  an error or a panic), or the insert fails, or the row is stored and the gauge set.
\<close>

lemma round_trip_result:
  "\<exists>f. round_trip c stmt = (c\<lparr>sent := sent c @ [stmt], faults := drop 1 (faults c)\<rparr>, f)"
  by (cases "faults c") (simp_all add: round_trip_def Let_def)

lemma QueryRow_Scan_result:
  "\<exists>r. QueryRow_Scan c schema table =
     (c\<lparr>sent := sent c @ [SelectFirstTime schema table], faults := drop 1 (faults c)\<rparr>, r)"
proof -
  obtain f where "round_trip c (SelectFirstTime schema table) =
      (c\<lparr>sent := sent c @ [SelectFirstTime schema table], faults := drop 1 (faults c)\<rparr>, f)"
    using round_trip_result by blast
  then show ?thesis
    unfolding QueryRow_Scan_def by (simp split: option.splits)
qed

lemma Exec_InsertUsage_result:
  "Exec c (InsertUsage us table b upd bpd) =
      (c\<lparr>sent := sent c @ [InsertUsage us table b upd bpd], faults := drop 1 (faults c),
         usage := insert_on_conflict (usage c)
           \<lparr>table_name = table, bytes = b, updated_at = upd, bytes_per_day = bpd\<rparr>\<rparr>, None)
   \<or> (\<exists>err. Exec c (InsertUsage us table b upd bpd) =
      (c\<lparr>sent := sent c @ [InsertUsage us table b upd bpd], faults := drop 1 (faults c)\<rparr>,
       Some err))"
proof -
  obtain f where "round_trip c (InsertUsage us table b upd bpd) =
      (c\<lparr>sent := sent c @ [InsertUsage us table b upd bpd], faults := drop 1 (faults c)\<rparr>, f)"
    using round_trip_result by blast
  then show ?thesis
    unfolding Exec_def by (cases f) simp_all
qed

lemma upsert_result:
  fixes w schema table size'
  defines "c1 \<equiv> (conn w)\<lparr>sent := sent (conn w) @ [SelectFirstTime schema table],
                          faults := drop 1 (faults (conn w))\<rparr>"
    and "S \<equiv> (case size' of None \<Rightarrow> 0 | Some n \<Rightarrow> n)"
    and "upd \<equiv> Format_RFC3339 (wallclock w)"
    and "us \<equiv> PostgresUsageSchema (config w)"
  shows "(\<exists>out. upsert w schema table size' = (w\<lparr>conn := c1\<rparr>, out) \<and> out \<noteq> Returned None)
    \<or> (\<exists>bpd err. upsert w schema table size' =
          (w\<lparr>conn := c1\<lparr>sent := sent c1 @ [InsertUsage us table S upd bpd],
                          faults := drop 1 (faults c1)\<rparr>,
             stdlog := stdlog w @ [Printf table S bpd]\<rparr>, Returned (Some err)))
    \<or> (\<exists>bpd. upsert w schema table size' =
          (w\<lparr>conn := c1\<lparr>sent := sent c1 @ [InsertUsage us table S upd bpd],
                          faults := drop 1 (faults c1),
                          usage := insert_on_conflict (usage c1)
                            \<lparr>table_name = table, bytes = S, updated_at = upd,
                             bytes_per_day = bpd\<rparr>\<rparr>,
             stdlog := stdlog w @ [Printf table S bpd],
             bytesMetrics := (bytesMetrics w)(table \<mapsto> real_of_int S)\<rparr>, Returned None))"
proof -
  obtain r where q: "QueryRow_Scan (conn w) schema table = (c1, r)"
    unfolding c1_def using QueryRow_Scan_result by blast
  define first where "first = (case r of
       Inl err \<Rightarrow> if err \<noteq> ErrNoRows then Inl (Returned (Some err)) else Inr (wallclock w)
     | Inr pgdate \<Rightarrow>
         (case Get_Time pgdate of
            None \<Rightarrow> Inl (Panicked ''interface conversion: interface {} is not time.Time'')
          | Some t \<Rightarrow> Inr t))"
  have not_ok: "out \<noteq> Returned None" if "first = Inl out" for out
    using that unfolding first_def by (auto split: sum.splits if_splits option.splits)
  show ?thesis
  proof (cases first)
    case (Inl out)
    then have "upsert w schema table size' = (w\<lparr>conn := c1\<rparr>, out)"
      unfolding upsert_def q time_Now_def first_def by (simp add: Let_def)
    with not_ok [OF Inl] show ?thesis by blast
  next
    case (Inr firstDate)
    define bpd where "bpd = (if Duration_Hours (time_Sub (wallclock w) firstDate) / 24 \<noteq> 0
       then real_of_int S / (Duration_Hours (time_Sub (wallclock w) firstDate) / 24) else 0)"
    have up: "upsert w schema table size' =
      (case Exec c1 (InsertUsage us table S upd bpd) of
         (c3, err) \<Rightarrow>
           if err \<noteq> None then (w\<lparr>conn := c3, stdlog := stdlog w @ [Printf table S bpd]\<rparr>, Returned err)
           else (w\<lparr>conn := c3, stdlog := stdlog w @ [Printf table S bpd],
                   bytesMetrics := (bytesMetrics w)(table \<mapsto> real_of_int S)\<rparr>, Returned None))"
      using Inr unfolding upsert_def q time_Now_def first_def log_Printf_def bpd_def S_def upd_def us_def
      by (simp add: Let_def split: prod.splits)
    from Exec_InsertUsage_result [of c1 us table S upd bpd]
    show ?thesis
    proof (elim disjE exE)
      assume "Exec c1 (InsertUsage us table S upd bpd) =
        (c1\<lparr>sent := sent c1 @ [InsertUsage us table S upd bpd], faults := drop 1 (faults c1),
           usage := insert_on_conflict (usage c1)
             \<lparr>table_name = table, bytes = S, updated_at = upd, bytes_per_day = bpd\<rparr>\<rparr>, None)"
      then have "upsert w schema table size' =
          (w\<lparr>conn := c1\<lparr>sent := sent c1 @ [InsertUsage us table S upd bpd],
                          faults := drop 1 (faults c1),
                          usage := insert_on_conflict (usage c1)
                            \<lparr>table_name = table, bytes = S, updated_at = upd,
                             bytes_per_day = bpd\<rparr>\<rparr>,
             stdlog := stdlog w @ [Printf table S bpd],
             bytesMetrics := (bytesMetrics w)(table \<mapsto> real_of_int S)\<rparr>, Returned None)"
        unfolding up by simp
      then show ?thesis by blast
    next
      fix err
      assume "Exec c1 (InsertUsage us table S upd bpd) =
        (c1\<lparr>sent := sent c1 @ [InsertUsage us table S upd bpd], faults := drop 1 (faults c1)\<rparr>,
         Some err)"
      then have "upsert w schema table size' =
          (w\<lparr>conn := c1\<lparr>sent := sent c1 @ [InsertUsage us table S upd bpd],
                          faults := drop 1 (faults c1)\<rparr>,
             stdlog := stdlog w @ [Printf table S bpd]\<rparr>, Returned (Some err))"
        unfolding up by simp
      then show ?thesis by blast
    qed
  qed
qed


subsection \<open>What measuring leaves as it is\<close>

lemma measuring_refl: "measuring w w"
  by (simp add: measuring_def)

lemma measuring_trans:
  assumes "measuring w w1" and "measuring w1 w2"
  shows "measuring w w2"
proof -
  obtain tr1 where 1: "sent (conn w1) = sent (conn w) @ tr1" "list_all is_upsert_statement tr1"
    using assms(1) unfolding measuring_def by blast
  obtain tr2 where 2: "sent (conn w2) = sent (conn w1) @ tr2" "list_all is_upsert_statement tr2"
    using assms(2) unfolding measuring_def by blast
  have "sent (conn w2) = sent (conn w) @ (tr1 @ tr2) \<and> list_all is_upsert_statement (tr1 @ tr2)"
    using 1 2 by simp
  then have "\<exists>tr. sent (conn w2) = sent (conn w) @ tr \<and> list_all is_upsert_statement tr"
    by blast
  moreover have "dom (bytesMetrics w) \<subseteq> dom (bytesMetrics w2)"
    using assms unfolding measuring_def by blast
  ultimately show ?thesis
    using assms unfolding measuring_def by simp
qed

lemma upsert_measuring:
  assumes "upsert w schema table size' = (w', out)"
  shows "measuring w w'"
  using upsert_result [of w schema table size'] assms
  by (elim disjE exE conjE) (auto simp: measuring_def cycles_started_def)

lemma Rows_Scan_result:
  "\<exists>r. Rows_Scan c row = (c\<lparr>faults := drop 1 (faults c)\<rparr>, r)"
proof (cases "faults c")
  case Nil
  then have "c\<lparr>faults := drop 1 (faults c)\<rparr> = c" by simp
  then show ?thesis using Nil by (simp add: Rows_Scan_def)
next
  case (Cons f fs)
  then show ?thesis by (cases f) (simp_all add: Rows_Scan_def)
qed

lemma measuring_scan: "measuring w (w\<lparr>conn := (conn w)\<lparr>faults := fs\<rparr>\<rparr>)"
  by (simp add: measuring_def cycles_started_def)

lemma measuring_warning:
  "measuring w (log_Println w (''WARNING: Table '' @ table @ '' seems to no longer exist''))"
  by (simp add: measuring_def cycles_started_def log_Println_def)

lemma upsert_rows_measuring:
  "upsert_rows w rows = (w', out) \<Longrightarrow> measuring w w'"
proof (induction rows arbitrary: w)
  case Nil
  then show ?case by (simp add: measuring_refl)
next
  case (Cons row rows)
  obtain r where scan: "Rows_Scan (conn w) row = ((conn w)\<lparr>faults := drop 1 (faults (conn w))\<rparr>, r)"
    using Rows_Scan_result by blast
  define w1 where "w1 = w\<lparr>conn := (conn w)\<lparr>faults := drop 1 (faults (conn w))\<rparr>\<rparr>"
  have m1: "measuring w w1"
    unfolding w1_def by (rule measuring_scan)
  show ?case
  proof (cases r)
    case (Inl err)
    then have "w' = w1"
      using Cons.prems scan unfolding w1_def by simp
    then show ?thesis using m1 by simp
  next
    case (Inr x)
    obtain schema table sz where x: "x = (schema, table, sz)"
      by (cases x) auto
    obtain w2 out2 where up: "upsert w1 schema table sz = (w2, out2)"
      by (cases "upsert w1 schema table sz") auto
    have m2: "measuring w w2"
      using measuring_trans [OF m1 upsert_measuring [OF up]] .
    have step: "upsert_rows w (row # rows) =
      (case out2 of
         Returned (Some err) \<Rightarrow>
           if errIsTableDoesNotExist err
           then upsert_rows
                  (log_Println w2 (''WARNING: Table '' @ table @ '' seems to no longer exist''))
                  rows
           else (w2, Returned (Some err))
       | Returned None \<Rightarrow> upsert_rows w2 rows
       | Panicked p \<Rightarrow> (w2, Panicked p))"
      using scan Inr x up unfolding w1_def
      by (simp split: outcome.splits option.splits)
    show ?thesis
    proof (cases out2)
      case (Panicked p)
      then show ?thesis using step Cons.prems m2 by simp
    next
      case (Returned e)
      show ?thesis
      proof (cases e)
        case None
        then have "upsert_rows w2 rows = (w', out)"
          using step Returned Cons.prems by simp
        from measuring_trans [OF m2 Cons.IH [OF this]] show ?thesis .
      next
        case (Some err)
        show ?thesis
        proof (cases "errIsTableDoesNotExist err")
          case True
          then have "upsert_rows
              (log_Println w2 (''WARNING: Table '' @ table @ '' seems to no longer exist''))
              rows = (w', out)"
            using step Returned Some Cons.prems by simp
          from measuring_trans [OF measuring_trans [OF m2 measuring_warning] Cons.IH [OF this]]
          show ?thesis .
        next
          case False
          then show ?thesis using step Returned Some Cons.prems m2 by simp
        qed
      qed
    qed
  qed
qed

subsection \<open>Rows already processed, vanished objects, cycles cut short\<close>


lemma upsert_vanished:
  assumes "relations (conn w) (schema, table) = None"
    and "set (take 1 (faults (conn w))) \<subseteq> {None}"
  shows "upsert w schema table size' =
    (w\<lparr>conn := (conn w)\<lparr>sent := sent (conn w) @ [SelectFirstTime schema table],
                          faults := drop 1 (faults (conn w))\<rparr>\<rparr>,
     Returned (Some (undefined_table schema table)))"
  unfolding upsert_def QueryRow_Scan_ok [OF assms(2)]
  using assms(1) by (simp add: Let_def undefined_table_def)

lemma run_tables_abort:
  assumes "upsertTables (log_Println w ''Starting Update..'') = (w1, out)" and "out \<noteq> Returned None"
  shows "run w = (w1, out)"
  using assms unfolding run_def
  by (cases out) (auto simp: Let_def split: option.splits)

lemma run_views_abort:
  assumes "upsertTables (log_Println w ''Starting Update..'') = (w1, Returned None)"
    and "upsertViews w1 = (w2, out)" and "out \<noteq> Returned None"
  shows "run w = (w2, out)"
  using assms unfolding run_def
  by (cases out) (auto simp: Let_def split: option.splits)

lemmas model_defs = upsert_def QueryRow_Scan_def Exec_def round_trip_def Rows_Scan_def Query_def
  time_Now_def log_Printf_def log_Println_def first_time_def insert_on_conflict_def
  Format_RFC3339_def Duration_Hours_eq time_Sub_def minDuration_def maxDuration_def Let_def

subsection \<open>The shape of every cycle\<close>

lemma Query_result:
  "\<exists>r. Query c stmt = (c\<lparr>sent := sent c @ [stmt], faults := drop 1 (faults c)\<rparr>, r)"
proof -
  obtain f where "round_trip c stmt =
      (c\<lparr>sent := sent c @ [stmt], faults := drop 1 (faults c)\<rparr>, f)"
    using round_trip_result by blast
  then show ?thesis
    unfolding Query_def by (cases f; cases stmt) simp_all
qed

lemma upsertWithQuery_measuring:
  assumes "upsertWithQuery w query = (w', out)"
  shows "measuring (w\<lparr>conn := (conn w)\<lparr>sent := sent (conn w) @ [query],
                                          faults := drop 1 (faults (conn w))\<rparr>\<rparr>) w'"
proof -
  obtain r where q: "Query (conn w) query =
      ((conn w)\<lparr>sent := sent (conn w) @ [query], faults := drop 1 (faults (conn w))\<rparr>, r)"
    using Query_result by blast
  show ?thesis
  proof (cases r)
    case (Inl err)
    then show ?thesis
      using assms unfolding upsertWithQuery_def q by (auto simp: measuring_refl)
  next
    case (Inr rows)
    then show ?thesis
      using assms unfolding upsertWithQuery_def q by (auto intro: upsert_rows_measuring)
  qed
qed

lemma follows_order_upserts:
  assumes "list_all is_upsert_statement tr" and "p = 1 \<or> p = 2"
  shows "follows_order p (tr @ rest) = follows_order p rest"
  using assms
proof (induction tr)
  case Nil
  then show ?case by simp
next
  case (Cons s tr)
  then show ?case by (cases s) auto
qed

lemma no_delete_in_upserts:
  "list_all is_upsert_statement tr \<Longrightarrow> filter is_delete tr = []"
proof (induction tr)
  case Nil
  then show ?case by simp
next
  case (Cons s tr)
  then show ?case by (cases s) auto
qed

lemma Exec_DeleteOutdated_result:
  "Exec c (DeleteOutdated us src) =
      (c\<lparr>sent := sent c @ [DeleteOutdated us src], faults := drop 1 (faults c),
         usage := delete_outdated c src\<rparr>, None)
   \<or> (\<exists>err. Exec c (DeleteOutdated us src) =
      (c\<lparr>sent := sent c @ [DeleteOutdated us src], faults := drop 1 (faults c)\<rparr>, Some err))"
proof -
  obtain f where "round_trip c (DeleteOutdated us src) =
      (c\<lparr>sent := sent c @ [DeleteOutdated us src], faults := drop 1 (faults c)\<rparr>, f)"
    using round_trip_result by blast
  then show ?thesis
    unfolding Exec_def by (cases f) (simp_all add: delete_outdated_def)
qed

lemma cycles_started_Starting:
  "cycles_started (log_Println w ''Starting Update..'') = Suc (cycles_started w)"
  by (simp add: cycles_started_def log_Println_def)

lemma run_frame:
  assumes "run w = (w', out)"
  shows "config w' = config w \<and> wallclock w' = wallclock w
      \<and> hypertables (conn w') = hypertables (conn w)
      \<and> continuous_aggregates (conn w') = continuous_aggregates (conn w)
      \<and> relations (conn w') = relations (conn w)
      \<and> dom (bytesMetrics w) \<subseteq> dom (bytesMetrics w')
      \<and> cycles_started w' = Suc (cycles_started w)
      \<and> (\<exists>tr. sent (conn w') = sent (conn w) @ tr \<and> follows_order 0 tr
             \<and> length (filter is_delete tr) \<le> 1)"
proof -
  define w0 where "w0 = log_Println w ''Starting Update..''"
  obtain w1 out1 where t: "upsertTables w0 = (w1, out1)"
    by (cases "upsertTables w0") auto
  have m1: "measuring (w0\<lparr>conn := (conn w0)\<lparr>sent := sent (conn w0) @ [SelectHypertables],
      faults := drop 1 (faults (conn w0))\<rparr>\<rparr>) w1"
    using upsertWithQuery_measuring t unfolding upsertTables_def by blast
  then obtain trT where trT: "sent (conn w1) = sent (conn w) @ SelectHypertables # trT"
      "list_all is_upsert_statement trT"
    unfolding measuring_def w0_def log_Println_def by auto
  have f1: "config w1 = config w \<and> wallclock w1 = wallclock w
      \<and> hypertables (conn w1) = hypertables (conn w)
      \<and> continuous_aggregates (conn w1) = continuous_aggregates (conn w)
      \<and> relations (conn w1) = relations (conn w)
      \<and> dom (bytesMetrics w) \<subseteq> dom (bytesMetrics w1)
      \<and> cycles_started w1 = Suc (cycles_started w)"
    using m1 cycles_started_Starting [of w]
    unfolding measuring_def w0_def by (simp add: log_Println_def cycles_started_def)
  show ?thesis
  proof (cases "out1 = Returned None")
    case False
    then have "run w = (w1, out1)"
      using run_tables_abort t unfolding w0_def by blast
    then have eq: "w' = w1" using assms by simp
    have "follows_order 0 (SelectHypertables # trT)"
      using follows_order_upserts [OF trT(2), of 1 "[]"] by simp
    moreover have "length (filter is_delete (SelectHypertables # trT)) \<le> 1"
      using no_delete_in_upserts [OF trT(2)] by simp
    ultimately show ?thesis using f1 trT(1) unfolding eq by blast
  next
    case True
    note t1 = t [unfolded True]
    obtain w2 out2 where v: "upsertViews w1 = (w2, out2)"
      by (cases "upsertViews w1") auto
    have m2: "measuring (w1\<lparr>conn := (conn w1)\<lparr>sent := sent (conn w1) @ [SelectContinuousAggregates],
        faults := drop 1 (faults (conn w1))\<rparr>\<rparr>) w2"
      using upsertWithQuery_measuring v unfolding upsertViews_def by blast
    then obtain trV where trV: "sent (conn w2) =
        sent (conn w) @ SelectHypertables # trT @ SelectContinuousAggregates # trV"
        "list_all is_upsert_statement trV"
      unfolding measuring_def using trT(1) by auto
    have f2: "config w2 = config w \<and> wallclock w2 = wallclock w
        \<and> hypertables (conn w2) = hypertables (conn w)
        \<and> continuous_aggregates (conn w2) = continuous_aggregates (conn w)
        \<and> relations (conn w2) = relations (conn w)
        \<and> dom (bytesMetrics w) \<subseteq> dom (bytesMetrics w2)
        \<and> cycles_started w2 = Suc (cycles_started w)"
    proof -
      have "dom (bytesMetrics w) \<subseteq> dom (bytesMetrics w2)"
      proof -
        have "dom (bytesMetrics w1) \<subseteq> dom (bytesMetrics w2)"
          using m2 unfolding measuring_def by simp
        moreover have "dom (bytesMetrics w) \<subseteq> dom (bytesMetrics w1)"
          using f1 by simp
        ultimately show ?thesis by (rule order_trans [rotated])
      qed
      then show ?thesis
        using m2 f1 unfolding measuring_def by (simp add: cycles_started_def)
    qed
    have o2: "follows_order 0 (SelectHypertables # trT @ SelectContinuousAggregates # trV @ rest)
        = follows_order 2 rest" for rest
      using follows_order_upserts [OF trT(2), of 1 "SelectContinuousAggregates # trV @ rest"]
        follows_order_upserts [OF trV(2), of 2 rest] by simp
    have d2: "filter is_delete (SelectHypertables # trT @ SelectContinuousAggregates # trV) = []"
      using no_delete_in_upserts [OF trT(2)] no_delete_in_upserts [OF trV(2)] by simp
    show ?thesis
    proof (cases "out2 = Returned None")
      case False
      then have "run w = (w2, out2)"
        using run_views_abort t1 v unfolding w0_def by blast
      then have eq: "w' = w2" using assms by simp
      have "follows_order 0 (SelectHypertables # trT @ SelectContinuousAggregates # trV)"
        using o2 [of "[]"] by simp
      moreover have "length (filter is_delete
          (SelectHypertables # trT @ SelectContinuousAggregates # trV)) \<le> 1"
        using d2 by simp
      ultimately show ?thesis using f2 trV(1) unfolding eq by blast
    next
      case True
      note v1 = v [unfolded True]
      define del where "del = DeleteOutdated (PostgresUsageSchema (config w2))
          (PostgresSourceSchema (config w2))"
      define w3 where "w3 = log_Println w2 ''Cleanup''"
      have r: "run w = (case Exec (conn w3) del of
          (c4, err) \<Rightarrow> if err \<noteq> None then (w3\<lparr>conn := c4\<rparr>, Returned err)
                       else (log_Println (w3\<lparr>conn := c4\<rparr>) ''Done'', Returned None))"
        unfolding run_def w3_def del_def using t1 v1
        by (simp add: w0_def Let_def log_Println_def split: prod.splits)
      obtain c4 err where e: "Exec (conn w3) del = (c4, err)"
        by (cases "Exec (conn w3) del") auto
      have c4: "sent c4 = sent (conn w2) @ [del] \<and> hypertables c4 = hypertables (conn w2)
          \<and> continuous_aggregates c4 = continuous_aggregates (conn w2)
          \<and> relations c4 = relations (conn w2)"
        using Exec_DeleteOutdated_result [of "conn w3" "PostgresUsageSchema (config w2)"
            "PostgresSourceSchema (config w2)"] e
        unfolding del_def w3_def log_Println_def by auto
      have w': "w' = (if err \<noteq> None then w3\<lparr>conn := c4\<rparr>
                     else log_Println (w3\<lparr>conn := c4\<rparr>) ''Done'')"
        using assms r e by (simp split: if_splits)
      have s: "sent (conn w') = sent (conn w) @
          (SelectHypertables # trT @ SelectContinuousAggregates # trV @ [del])"
        using w' c4 trV(1) by (simp add: log_Println_def w3_def)
      have "follows_order 0 (SelectHypertables # trT @ SelectContinuousAggregates # trV @ [del])"
        using o2 [of "[del]"] by (simp add: del_def)
      moreover have "length (filter is_delete
          (SelectHypertables # trT @ SelectContinuousAggregates # trV @ [del])) \<le> 1"
        using d2 by (simp add: del_def)
      moreover have "config w' = config w \<and> wallclock w' = wallclock w
          \<and> hypertables (conn w') = hypertables (conn w)
          \<and> continuous_aggregates (conn w') = continuous_aggregates (conn w)
          \<and> relations (conn w') = relations (conn w)
          \<and> dom (bytesMetrics w) \<subseteq> dom (bytesMetrics w')
          \<and> cycles_started w' = Suc (cycles_started w)"
        using w' c4 f2 by (simp add: log_Println_def w3_def cycles_started_def)
      ultimately show ?thesis using s by blast
    qed
  qed
qed

subsection \<open>After the reconciliation\<close>

lemma run_reconciled:
  assumes "run w = (w', Returned None)"
  shows "\<exists>c. usage (conn w') = delete_outdated c (PostgresSourceSchema (config w'))
      \<and> hypertables c = hypertables (conn w')
      \<and> continuous_aggregates c = continuous_aggregates (conn w')"
proof -
  define w0 where "w0 = log_Println w ''Starting Update..''"
  obtain w1 out1 where t: "upsertTables w0 = (w1, out1)"
    by (cases "upsertTables w0") auto
  have o1: "out1 = Returned None"
    using run_tables_abort [of w w1 out1] t assms unfolding w0_def by auto
  obtain w2 out2 where v: "upsertViews w1 = (w2, out2)"
    by (cases "upsertViews w1") auto
  have o2: "out2 = Returned None"
    using run_views_abort [of w w1 w2 out2] t v assms unfolding w0_def o1 by auto
  define us where "us = PostgresUsageSchema (config w2)"
  define src where "src = PostgresSourceSchema (config w2)"
  define c3 where "c3 = conn w2"
  have r: "run w = (case Exec c3 (DeleteOutdated us src) of
      (c4, err) \<Rightarrow> if err \<noteq> None
                   then (w2\<lparr>stdlog := stdlog w2 @ [Println ''Cleanup''], conn := c4\<rparr>, Returned err)
                   else (w2\<lparr>stdlog := stdlog w2 @ [Println ''Cleanup'', Println ''Done''],
                           conn := c4\<rparr>, Returned None))"
    unfolding run_def us_def src_def c3_def using t v
    by (simp add: w0_def o1 o2 Let_def log_Println_def split: prod.splits)
  from Exec_DeleteOutdated_result [of c3 us src] show ?thesis
  proof (elim disjE exE)
    assume e: "Exec c3 (DeleteOutdated us src) =
      (c3\<lparr>sent := sent c3 @ [DeleteOutdated us src], faults := drop 1 (faults c3),
          usage := delete_outdated c3 src\<rparr>, None)"
    have "w' = w2\<lparr>stdlog := stdlog w2 @ [Println ''Cleanup'', Println ''Done''],
        conn := c3\<lparr>sent := sent c3 @ [DeleteOutdated us src], faults := drop 1 (faults c3),
          usage := delete_outdated c3 src\<rparr>\<rparr>"
      using assms unfolding r e by simp
    then have "usage (conn w') = delete_outdated c3 (PostgresSourceSchema (config w'))
      \<and> hypertables c3 = hypertables (conn w')
      \<and> continuous_aggregates c3 = continuous_aggregates (conn w')"
      by (simp add: src_def)
    then show ?thesis by blast
  next
    fix err
    assume "Exec c3 (DeleteOutdated us src) =
      (c3\<lparr>sent := sent c3 @ [DeleteOutdated us src], faults := drop 1 (faults c3)\<rparr>, Some err)"
    then have False using assms unfolding r by simp
    then show ?thesis ..
  qed
qed

subsection \<open>A cycle on the example database\<close>

lemmas cycle_defs = run_def upsertTables_def upsertViews_def upsertWithQuery_def

lemma run_mixed_worker:
  "run mixed_worker =
    (mixed_worker\<lparr>
       conn := mixed_pool\<lparr>
         usage := [\<lparr>table_name = ''sensor_data'', bytes = 1048576, updated_at = 1700000000,
                     bytes_per_day = 524288\<rparr>,
                   \<lparr>table_name = ''new_table'', bytes = 0, updated_at = 1700000000,
                     bytes_per_day = 0\<rparr>,
                   \<lparr>table_name = ''forecast'', bytes = 4096, updated_at = 1700000000,
                     bytes_per_day = - 4096\<rparr>],
         sent := [SelectHypertables,
                  SelectFirstTime ''src'' ''sensor_data'',
                  InsertUsage ''usage'' ''sensor_data'' 1048576 1700000000 524288,
                  SelectFirstTime ''src'' ''new_table'',
                  InsertUsage ''usage'' ''new_table'' 0 1700000000 0,
                  SelectContinuousAggregates,
                  SelectFirstTime ''src'' ''forecast'',
                  InsertUsage ''usage'' ''forecast'' 4096 1700000000 (- 4096),
                  DeleteOutdated ''usage'' ''src'']\<rparr>,
       bytesMetrics := [''sensor_data'' \<mapsto> 1048576, ''new_table'' \<mapsto> 0, ''forecast'' \<mapsto> 4096],
       stdlog := [Println ''Starting Update..'',
                  Printf ''sensor_data'' 1048576 524288,
                  Printf ''new_table'' 0 0,
                  Printf ''forecast'' 4096 (- 4096),
                  Println ''Cleanup'', Println ''Done'']\<rparr>,
     Returned None)"
  by (simp add: mixed_worker_def mixed_pool_def sensor_config_def cycle_defs model_defs
      delete_outdated_def names_in_schema_def del: set_filter set_map)

subsection \<open>The usage table under the upsert statement\<close>

lemma insert_on_conflict_idem:
  fixes r :: usage_row
  shows "insert_on_conflict (insert_on_conflict rows r) r = insert_on_conflict rows r"
proof (cases "table_name r \<in> set (map table_name rows)")
  case True
  let ?f = "\<lambda>x. if table_name x = table_name r
                 then x\<lparr>bytes := bytes r, updated_at := updated_at r,
                        bytes_per_day := bytes_per_day r\<rparr>
                 else x"
  have keys: "map table_name (map ?f rows) = map table_name rows"
    by (induction rows) auto
  have "map ?f (map ?f rows) = map ?f rows"
    by (induction rows) auto
  then show ?thesis
    using True keys unfolding insert_on_conflict_def by (simp only: if_True)
next
  case False
  then have "map (\<lambda>x. if table_name x = table_name r
                 then x\<lparr>bytes := bytes r, updated_at := updated_at r,
                        bytes_per_day := bytes_per_day r\<rparr>
                 else x) rows = rows"
    by (induction rows) auto
  then show ?thesis
    using False unfolding insert_on_conflict_def by simp
qed

lemma insert_on_conflict_keys:
  fixes r :: usage_row
  shows "map table_name (insert_on_conflict rows r) =
    (if table_name r \<in> set (map table_name rows) then map table_name rows
     else map table_name rows @ [table_name r])"
proof -
  have "map table_name (map (\<lambda>x. if table_name x = table_name r
                 then x\<lparr>bytes := bytes r, updated_at := updated_at r,
                        bytes_per_day := bytes_per_day r\<rparr>
                 else x) rows) = map table_name rows"
    by (induction rows) auto
  then show ?thesis unfolding insert_on_conflict_def by simp
qed

lemma insert_on_conflict_distinct:
  fixes r :: usage_row
  assumes "distinct (map table_name rows)"
  shows "distinct (map table_name (insert_on_conflict rows r))"
  using assms unfolding insert_on_conflict_keys by simp

lemma filter_key_distinct:
  fixes r :: usage_row
  assumes "distinct (map table_name rows)" and "find (\<lambda>x. table_name x = k) rows = Some r"
  shows "filter (\<lambda>x. table_name x = k) rows = [r]"
  using assms
proof (induction rows)
  case Nil
  then show ?case by simp
next
  case (Cons x rows)
  show ?case
  proof (cases "table_name x = k")
    case True
    then have "x = r" using Cons.prems(2) by simp
    moreover have "filter (\<lambda>x. table_name x = k) rows = []"
    proof -
      have "table_name y \<noteq> k" if "y \<in> set rows" for y
        using Cons.prems(1) True that by (metis distinct.simps(2) image_eqI list.simps(9) set_map)
      then show ?thesis by (simp add: filter_empty_conv)
    qed
    ultimately show ?thesis using True by simp
  next
    case False
    then show ?thesis using Cons by simp
  qed
qed

lemma Exec_InsertUsage_succeeded:
  assumes "Exec c (InsertUsage us table b upd bpd) = (c1, None)"
  shows "usage c1 = insert_on_conflict (usage c)
           \<lparr>table_name = table, bytes = b, updated_at = upd, bytes_per_day = bpd\<rparr>"
  using Exec_InsertUsage_result [of c us table b upd bpd] assms by auto

subsection \<open>Instants ahead of the clock; gauges under the ticker loop\<close>

lemma time_Sub_negative: "t < u \<Longrightarrow> time_Sub t u < 0"
  by (simp add: time_Sub_def Let_def minDuration_def maxDuration_def)

lemma ticker_loop_gauges:
  "ticker_loop w cases = (w', res) \<Longrightarrow> dom (bytesMetrics w) \<subseteq> dom (bytesMetrics w')"
proof (induction cases arbitrary: w)
  case Nil
  then show ?case by simp
next
  case (Cons c cases)
  show ?case
  proof (cases c)
    case CtxDone
    then show ?thesis using Cons.prems by simp
  next
    case TickerC
    obtain w1 out where r: "run w = (w1, out)"
      by (cases "run w") auto
    have d1: "dom (bytesMetrics w) \<subseteq> dom (bytesMetrics w1)"
      using run_frame [OF r] by blast
    show ?thesis
    proof (cases "out = Returned None")
      case True
      then have "ticker_loop w1 cases = (w', res)"
        using Cons.prems r TickerC by simp
      from d1 Cons.IH [OF this] show ?thesis by (rule order_trans)
    next
      case False
      then have "w' = w1"
        using Cons.prems r TickerC by (auto split: outcome.splits option.splits)
      with d1 show ?thesis by simp
    qed
  qed
qed

subsection \<open>Cycles without failures\<close>

lemma no_faults_take: "list_all (\<lambda>f. f = None) fs \<Longrightarrow> set (take n fs) \<subseteq> {None}"
  by (auto simp: list_all_iff dest: in_set_takeD)

lemma no_faults_drop: "list_all (\<lambda>f. f = None) fs \<Longrightarrow> list_all (\<lambda>f. f = None) (drop n fs)"
  by (auto simp: list_all_iff dest: in_set_dropD)

lemma upsert_zero_failures:
  assumes nf: "list_all (\<lambda>f. f = None) (faults (conn w))"
    and col: "time_column_ok (conn w) \<lparr>obj_schema = schema, obj_name = table, approximate_size = sz\<rparr>"
  shows "\<exists>w' tr. (upsert w schema table sz = (w', Returned None)
                   \<or> upsert w schema table sz = (w', Returned (Some (undefined_table schema table))))
      \<and> sent (conn w') = sent (conn w) @ SelectFirstTime schema table # tr
      \<and> list_all is_upsert_statement tr \<and> filter is_upsert_attempt tr = []
      \<and> list_all (\<lambda>f. f = None) (faults (conn w'))"
proof (cases "relations (conn w) (schema, table)")
  case None
  from upsert_vanished [OF None no_faults_take [OF nf], of sz]
  have "upsert w schema table sz =
      (w\<lparr>conn := (conn w)\<lparr>sent := sent (conn w) @ [SelectFirstTime schema table],
                            faults := drop 1 (faults (conn w))\<rparr>\<rparr>,
       Returned (Some (undefined_table schema table)))" .
  moreover have "list_all (\<lambda>f. f = None) (drop 1 (faults (conn w)))"
    using no_faults_drop [OF nf] .
  ultimately show ?thesis
    by (intro exI [of _ "w\<lparr>conn := (conn w)\<lparr>sent := sent (conn w) @ [SelectFirstTime schema table],
          faults := drop 1 (faults (conn w))\<rparr>\<rparr>"] exI [of _ "[]"]) simp
next
  case (Some col')
  have "\<exists>T0. first_time col' = None \<and> T0 = wallclock w \<or> first_time col' = Some (TsTime T0)"
  proof (cases "first_time col'")
    case None
    then show ?thesis by simp
  next
    case (Some v)
    then have "Get_Time v \<noteq> None"
      using col \<open>relations (conn w) (schema, table) = Some col'\<close>
      by (simp add: time_column_ok_def)
    then obtain t where "v = TsTime t" by (cases v) auto
    with Some show ?thesis by simp
  qed
  then obtain T0 where first: "first_time col' = None \<and> T0 = wallclock w
      \<or> first_time col' = Some (TsTime T0)" by blast
  define S where "S = (case sz of None \<Rightarrow> 0 | Some n \<Rightarrow> n)"
  define days where "days = Duration_Hours (time_Sub (wallclock w) T0) / 24"
  define bpd where "bpd = (if days \<noteq> 0 then real_of_int S / days else 0)"
  note up = upsert_measured [OF no_faults_take [OF nf] Some first S_def days_def bpd_def]
  have "list_all (\<lambda>f. f = None) (drop 2 (faults (conn w)))"
    using no_faults_drop [OF nf] .
  then show ?thesis
    unfolding up
    by (intro exI [of _ "w\<lparr>conn := (conn w)\<lparr>
          sent := sent (conn w) @ [SelectFirstTime schema table,
            InsertUsage (PostgresUsageSchema (config w)) table S (Format_RFC3339 (wallclock w)) bpd],
          faults := drop 2 (faults (conn w)),
          usage := insert_on_conflict (usage (conn w))
            \<lparr>table_name = table, bytes = S, updated_at = Format_RFC3339 (wallclock w),
             bytes_per_day = bpd\<rparr>\<rparr>,
        stdlog := stdlog w @ [Printf table S bpd],
        bytesMetrics := (bytesMetrics w)(table \<mapsto> real_of_int S)\<rparr>"]
        exI [of _ "[InsertUsage (PostgresUsageSchema (config w)) table S
            (Format_RFC3339 (wallclock w)) bpd]"]) simp
qed

lemma time_column_ok_relations:
  "relations c' = relations c \<Longrightarrow> time_column_ok c' row = time_column_ok c row"
  by (simp add: time_column_ok_def)

lemma Rows_Scan_ok:
  assumes "list_all (\<lambda>f. f = None) (faults c)"
  shows "Rows_Scan c row =
    (c\<lparr>faults := drop 1 (faults c)\<rparr>, Inr (obj_schema row, obj_name row, approximate_size row))"
proof (cases "faults c")
  case Nil
  then have "c\<lparr>faults := drop 1 (faults c)\<rparr> = c" by simp
  then show ?thesis using Nil by (simp add: Rows_Scan_def)
next
  case (Cons f fs)
  then have "f = None" using assms by simp
  then show ?thesis using Cons by (simp add: Rows_Scan_def)
qed

lemma upsert_rows_zero_failures:
  assumes "list_all (\<lambda>f. f = None) (faults (conn w))"
    and "list_all (time_column_ok (conn w)) rows"
  shows "\<exists>w' tr. upsert_rows w rows = (w', Returned None)
      \<and> sent (conn w') = sent (conn w) @ tr
      \<and> list_all is_upsert_statement tr
      \<and> filter is_upsert_attempt tr = map attempt_of rows
      \<and> list_all (\<lambda>f. f = None) (faults (conn w'))"
  using assms
proof (induction rows arbitrary: w)
  case Nil
  then show ?case by simp
next
  case (Cons row rows)
  define w1 where "w1 = w\<lparr>conn := (conn w)\<lparr>faults := drop 1 (faults (conn w))\<rparr>\<rparr>"
  have scan: "Rows_Scan (conn w) row =
      (conn w1, Inr (obj_schema row, obj_name row, approximate_size row))"
    unfolding w1_def using Rows_Scan_ok [OF Cons.prems(1)] by simp
  have nf1: "list_all (\<lambda>f. f = None) (faults (conn w1))"
    unfolding w1_def using no_faults_drop [OF Cons.prems(1)] by simp
  have "time_column_ok (conn w) row" using Cons.prems(2) by simp
  then have col1: "time_column_ok (conn w1)
      \<lparr>obj_schema = obj_schema row, obj_name = obj_name row,
       approximate_size = approximate_size row\<rparr>"
    unfolding w1_def by (simp add: time_column_ok_def)
  obtain w2 tr2 where up:
      "upsert w1 (obj_schema row) (obj_name row) (approximate_size row) = (w2, Returned None)
       \<or> upsert w1 (obj_schema row) (obj_name row) (approximate_size row)
          = (w2, Returned (Some (undefined_table (obj_schema row) (obj_name row))))"
    and s2: "sent (conn w2) = sent (conn w1) @ SelectFirstTime (obj_schema row) (obj_name row) # tr2"
    and u2: "list_all is_upsert_statement tr2" "filter is_upsert_attempt tr2 = []"
    and nf2: "list_all (\<lambda>f. f = None) (faults (conn w2))"
    using upsert_zero_failures [OF nf1 col1] by blast
  have m2: "measuring w1 w2"
    using up upsert_measuring by blast
  define w3 where "w3 = (if upsert w1 (obj_schema row) (obj_name row) (approximate_size row)
        = (w2, Returned None) then w2
      else log_Println w2 (''WARNING: Table '' @ obj_name row @ '' seems to no longer exist''))"
  have step: "upsert_rows w (row # rows) = upsert_rows w3 rows"
    using up scan errIsTableDoesNotExist_undefined_table [of "obj_schema row" "obj_name row"]
    unfolding w3_def w1_def by auto
  have c3: "sent (conn w3) = sent (conn w2)" "faults (conn w3) = faults (conn w2)"
      "relations (conn w3) = relations (conn w)"
    using m2 unfolding w3_def w1_def measuring_def by (auto simp: log_Println_def)
  have "list_all (time_column_ok (conn w3)) rows"
    using Cons.prems(2) time_column_ok_relations [OF c3(3)] by (simp add: list_all_iff)
  moreover have "list_all (\<lambda>f. f = None) (faults (conn w3))"
    using nf2 c3(2) by simp
  ultimately obtain w' tr where rest: "upsert_rows w3 rows = (w', Returned None)"
      "sent (conn w') = sent (conn w3) @ tr" "list_all is_upsert_statement tr"
      "filter is_upsert_attempt tr = map attempt_of rows"
      "list_all (\<lambda>f. f = None) (faults (conn w'))"
    using Cons.IH by blast
  define tr' where "tr' = SelectFirstTime (obj_schema row) (obj_name row) # tr2 @ tr"
  have A: "sent (conn w') = sent (conn w) @ tr'"
    using rest(2) c3(1) s2 unfolding w1_def tr'_def by simp
  have B: "list_all is_upsert_statement tr'"
    using u2(1) rest(3) unfolding tr'_def by simp
  have C: "filter is_upsert_attempt tr' = map attempt_of (row # rows)"
    using u2(2) rest(4) unfolding tr'_def by (simp add: attempt_of_def)
  have R: "upsert_rows w (row # rows) = (w', Returned None)"
    using step rest(1) by simp
  from R A B C rest(5) show ?case by blast
qed

lemma Query_ok:
  assumes "list_all (\<lambda>f. f = None) (faults c)"
  shows "Query c SelectHypertables =
      (c\<lparr>sent := sent c @ [SelectHypertables], faults := drop 1 (faults c)\<rparr>, Inr (hypertables c))"
    and "Query c SelectContinuousAggregates =
      (c\<lparr>sent := sent c @ [SelectContinuousAggregates], faults := drop 1 (faults c)\<rparr>,
       Inr (continuous_aggregates c))"
  unfolding Query_def round_trip_ok [OF no_faults_take [OF assms]] by simp_all

lemma Exec_ok:
  assumes "list_all (\<lambda>f. f = None) (faults c)"
  shows "Exec c (DeleteOutdated us src) =
      (c\<lparr>sent := sent c @ [DeleteOutdated us src], faults := drop 1 (faults c),
         usage := delete_outdated c src\<rparr>, None)"
    and "Exec c (Migrate us) = (c\<lparr>sent := sent c @ [Migrate us], faults := drop 1 (faults c)\<rparr>, None)"
  unfolding Exec_def round_trip_ok [OF no_faults_take [OF assms]]
  by (simp_all add: delete_outdated_def)

lemma upsertWithQuery_zero_failures:
  assumes nf: "list_all (\<lambda>f. f = None) (faults (conn w))"
    and q: "Query (conn w) query =
      ((conn w)\<lparr>sent := sent (conn w) @ [query], faults := drop 1 (faults (conn w))\<rparr>, Inr rows)"
    and cols: "list_all (time_column_ok (conn w)) rows"
  shows "\<exists>w' tr. upsertWithQuery w query = (w', Returned None)
      \<and> sent (conn w') = sent (conn w) @ query # tr
      \<and> list_all is_upsert_statement tr
      \<and> filter is_upsert_attempt tr = map attempt_of rows
      \<and> list_all (\<lambda>f. f = None) (faults (conn w'))"
proof -
  define w0 where "w0 = w\<lparr>conn := (conn w)\<lparr>sent := sent (conn w) @ [query],
      faults := drop 1 (faults (conn w))\<rparr>\<rparr>"
  have nf0: "list_all (\<lambda>f. f = None) (faults (conn w0))"
    unfolding w0_def using no_faults_drop [OF nf] by simp
  have cols0: "list_all (time_column_ok (conn w0)) rows"
  proof -
    have "time_column_ok (conn w0) = time_column_ok (conn w)"
      unfolding w0_def by (rule ext) (simp add: time_column_ok_def)
    then show ?thesis using cols by simp
  qed
  obtain w' tr where r: "upsert_rows w0 rows = (w', Returned None)"
      "sent (conn w') = sent (conn w0) @ tr" "list_all is_upsert_statement tr"
      "filter is_upsert_attempt tr = map attempt_of rows"
      "list_all (\<lambda>f. f = None) (faults (conn w'))"
    using upsert_rows_zero_failures [OF nf0 cols0] by blast
  have "upsertWithQuery w query = (w', Returned None)"
    unfolding upsertWithQuery_def q using r(1) unfolding w0_def by simp
  moreover have "sent (conn w') = sent (conn w) @ query # tr"
    using r(2) unfolding w0_def by simp
  ultimately show ?thesis using r(3,4,5) by blast
qed

lemma run_zero_failures:
  assumes "zero_failures (conn w)"
  shows "\<exists>w' trT trV. run w = (w', Returned None)
      \<and> sent (conn w') = sent (conn w) @
           SelectHypertables # trT @ SelectContinuousAggregates # trV @
           [DeleteOutdated (PostgresUsageSchema (config w)) (PostgresSourceSchema (config w))]
      \<and> list_all is_upsert_statement trT
      \<and> filter is_upsert_attempt trT = map attempt_of (hypertables (conn w))
      \<and> list_all is_upsert_statement trV
      \<and> filter is_upsert_attempt trV = map attempt_of (continuous_aggregates (conn w))
      \<and> zero_failures (conn w')"
proof -
  define w0 where "w0 = log_Println w ''Starting Update..''"
  have c0: "conn w0 = conn w" "config w0 = config w"
    unfolding w0_def by (simp_all add: log_Println_def)
  have nf: "list_all (\<lambda>f. f = None) (faults (conn w))"
    and colsT: "list_all (time_column_ok (conn w)) (hypertables (conn w))"
    and colsV: "list_all (time_column_ok (conn w)) (continuous_aggregates (conn w))"
    using assms unfolding zero_failures_def by simp_all
  obtain w1 trT where t: "upsertTables w0 = (w1, Returned None)"
      "sent (conn w1) = sent (conn w) @ SelectHypertables # trT"
      "list_all is_upsert_statement trT"
      "filter is_upsert_attempt trT = map attempt_of (hypertables (conn w))"
      "list_all (\<lambda>f. f = None) (faults (conn w1))"
    using upsertWithQuery_zero_failures [of w0 SelectHypertables "hypertables (conn w)"]
      Query_ok(1) [OF nf] nf colsT
    unfolding upsertTables_def c0 by blast
  have m1: "measuring (w0\<lparr>conn := (conn w0)\<lparr>sent := sent (conn w0) @ [SelectHypertables],
      faults := drop 1 (faults (conn w0))\<rparr>\<rparr>) w1"
    using upsertWithQuery_measuring t(1) unfolding upsertTables_def by blast
  have f1: "relations (conn w1) = relations (conn w)"
      "continuous_aggregates (conn w1) = continuous_aggregates (conn w)"
      "config w1 = config w"
    using m1 c0 unfolding measuring_def by simp_all
  have colsV1: "list_all (time_column_ok (conn w1)) (continuous_aggregates (conn w1))"
    using colsV time_column_ok_relations [OF f1(1)] f1(2) by (simp add: list_all_iff)
  obtain w2 trV where v: "upsertViews w1 = (w2, Returned None)"
      "sent (conn w2) = sent (conn w1) @ SelectContinuousAggregates # trV"
      "list_all is_upsert_statement trV"
      "filter is_upsert_attempt trV = map attempt_of (continuous_aggregates (conn w))"
      "list_all (\<lambda>f. f = None) (faults (conn w2))"
    using upsertWithQuery_zero_failures [of w1 SelectContinuousAggregates
        "continuous_aggregates (conn w1)"]
      Query_ok(2) [OF t(5)] t(5) colsV1
    unfolding upsertViews_def f1(2) by blast
  have m2: "measuring (w1\<lparr>conn := (conn w1)\<lparr>sent := sent (conn w1) @ [SelectContinuousAggregates],
      faults := drop 1 (faults (conn w1))\<rparr>\<rparr>) w2"
    using upsertWithQuery_measuring v(1) unfolding upsertViews_def by blast
  have f2: "config w2 = config w"
    using m2 f1(3) unfolding measuring_def by simp
  define del where "del = DeleteOutdated (PostgresUsageSchema (config w)) (PostgresSourceSchema (config w))"
  define c4 where "c4 = (conn w2)\<lparr>sent := sent (conn w2) @ [del], faults := drop 1 (faults (conn w2)),
      usage := delete_outdated (conn w2) (PostgresSourceSchema (config w))\<rparr>"
  have e: "Exec (conn w2) del = (c4, None)"
    unfolding del_def c4_def using Exec_ok(1) [OF v(5)] by simp
  define w' where "w' = log_Println ((log_Println w2 ''Cleanup'')\<lparr>conn := c4\<rparr>) ''Done''"
  have r: "run w = (w', Returned None)"
  proof -
    have lp: "\<And>x s. conn (log_Println x s) = conn x" "\<And>x s. config (log_Println x s) = config x"
      by (simp_all add: log_Println_def)
    show ?thesis
      unfolding run_def Let_def w0_def [symmetric] w'_def
      using t(1) v(1) e [unfolded del_def] by (simp add: lp f2)
  qed
  have s: "sent (conn w') = sent (conn w) @
      SelectHypertables # trT @ SelectContinuousAggregates # trV @ [del]"
    unfolding w'_def c4_def using t(2) v(2) by (simp add: log_Println_def)
  have nf': "list_all (\<lambda>f. f = None) (faults (conn w'))"
    unfolding w'_def c4_def using no_faults_drop [OF v(5)] by (simp add: log_Println_def)
  have fr: "hypertables (conn w') = hypertables (conn w)"
      "continuous_aggregates (conn w') = continuous_aggregates (conn w)"
      "relations (conn w') = relations (conn w)"
    using run_frame [OF r] by simp_all
  have "list_all (time_column_ok (conn w')) (hypertables (conn w') @ continuous_aggregates (conn w'))"
    using colsT colsV time_column_ok_relations [OF fr(3)] fr(1,2) by (auto simp: list_all_iff)
  then have z: "zero_failures (conn w')"
    using nf' unfolding zero_failures_def by simp
  from r s t(3,4) v(3,4) z show ?thesis unfolding del_def by blast
qed

subsection \<open>The scheduler once connected\<close>

lemma Start_connected:
  assumes "set (take 2 (faults pool)) \<subseteq> {None}"
  shows "Start ParseDuration ctx cfg pool clock =
    (if length (Duration cfg) = 0
     then (case run (started cfg pool clock) of (w2, out) \<Rightarrow> (w2, Some out))
     else
       (case ParseDuration (Duration cfg) of
          Inl err \<Rightarrow> (started cfg pool clock, Some (Returned (Some err)))
        | Inr d \<Rightarrow>
            if d \<le> 0
            then (started cfg pool clock, Some (Panicked ''non-positive interval for NewTicker''))
            else
              (case run (started cfg pool clock) of
                 (w2, Returned None) \<Rightarrow> ticker_loop w2 ctx
               | (w2, out) \<Rightarrow> (w2, Some out))))"
proof -
  have ok1: "set (take 1 (faults pool)) \<subseteq> {None}"
    using assms by (cases "faults pool") auto
  have ok2: "set (take 1 (drop 1 (faults pool))) \<subseteq> {None}"
    using assms by (cases "faults pool"; cases "tl (faults pool)") auto
  have n: "NewConnPool pool = (pool\<lparr>faults := drop 1 (faults pool)\<rparr>, None)"
  proof (cases "faults pool")
    case Nil
    then have "pool\<lparr>faults := drop 1 (faults pool)\<rparr> = pool" by simp
    then show ?thesis using Nil by (simp add: NewConnPool_def)
  next
    case (Cons f fs)
    then show ?thesis using ok1 by (simp add: NewConnPool_def)
  qed
  define w where "w = \<lparr>conn = pool\<lparr>faults := drop 1 (faults pool)\<rparr>, config = cfg,
      bytesMetrics = Map.empty, stdlog = [], wallclock = clock\<rparr>"
  have "round_trip (conn w) (Migrate (PostgresUsageSchema cfg)) =
      ((conn w)\<lparr>sent := sent (conn w) @ [Migrate (PostgresUsageSchema cfg)],
                 faults := drop 1 (faults (conn w))\<rparr>, None)"
    using round_trip_ok [of "conn w"] ok2 unfolding w_def by simp
  then have m: "migrate w = (started cfg pool clock, None)"
    unfolding migrate_def Exec_def started_def w_def by (simp add: numeral_2_eq_2)
  show ?thesis
    unfolding Start_def n using m unfolding w_def by (simp add: Let_def)
qed

lemma cycles_started_started: "cycles_started (started cfg pool clock) = 0"
  by (simp add: cycles_started_def started_def)

lemma zero_failures_started:
  assumes "zero_failures pool"
  shows "zero_failures (conn (started cfg pool clock))"
proof -
  have "time_column_ok (conn (started cfg pool clock)) = time_column_ok pool"
    by (rule ext) (simp add: time_column_ok_def started_def)
  moreover have "list_all (\<lambda>f. f = None) (drop 2 (faults pool))"
    using assms no_faults_drop unfolding zero_failures_def by blast
  ultimately show ?thesis
    using assms unfolding zero_failures_def by (simp add: started_def)
qed

lemma ticker_loop_cancel:
  "ticker_loop w (replicate n TickerC @ CtxDone # rest) = (w', res) \<Longrightarrow>
     (res = Some (Returned None) \<and> cycles_started w' = cycles_started w + n)
     \<or> (((\<exists>e. res = Some (Returned (Some e))) \<or> (\<exists>p. res = Some (Panicked p)))
        \<and> cycles_started w < cycles_started w' \<and> cycles_started w' \<le> cycles_started w + n)"
proof (induction n arbitrary: w)
  case 0
  then show ?case by simp
next
  case (Suc n)
  obtain w1 out where r: "run w = (w1, out)"
    by (cases "run w") auto
  have c1: "cycles_started w1 = Suc (cycles_started w)"
    using run_frame [OF r] by blast
  show ?case
  proof (cases "out = Returned None")
    case True
    then have "ticker_loop w1 (replicate n TickerC @ CtxDone # rest) = (w', res)"
      using Suc.prems r by simp
    from Suc.IH [OF this] show ?thesis unfolding c1 by auto
  next
    case False
    then have "w' = w1 \<and> res = Some out"
      using Suc.prems r by (auto split: outcome.splits option.splits)
    moreover have "(\<exists>e. out = Returned (Some e)) \<or> (\<exists>p. out = Panicked p)"
      using False by (cases out) auto
    ultimately show ?thesis using c1 by auto
  qed
qed

lemma ticker_loop_zero_failures:
  "zero_failures (conn w) \<Longrightarrow>
     \<exists>w'. ticker_loop w (replicate n TickerC @ CtxDone # rest) = (w', Some (Returned None))
        \<and> cycles_started w' = cycles_started w + n"
proof (induction n arbitrary: w)
  case 0
  then show ?case by simp
next
  case (Suc n)
  obtain w1 where r: "run w = (w1, Returned None)" and z: "zero_failures (conn w1)"
    using run_zero_failures [OF Suc.prems] by blast
  have c1: "cycles_started w1 = Suc (cycles_started w)"
    using run_frame [OF r] by blast
  obtain w' where "ticker_loop w1 (replicate n TickerC @ CtxDone # rest) = (w', Some (Returned None))"
      "cycles_started w' = cycles_started w1 + n"
    using Suc.IH [OF z] by blast
  then have "ticker_loop w (replicate (Suc n) TickerC @ CtxDone # rest) = (w', Some (Returned None))
      \<and> cycles_started w' = cycles_started w + Suc n"
    using r c1 by simp
  then show ?case by blast
qed

section \<open>Properties of the worker\<close>

text \<open>
  Claim C1 as it is stated takes the age to be \<open>Tn - T0\<close> in days for every pair of
  instants. The upsert computes it as \<open>now.Sub(firstDate).Hours() / 24\<close>, and \<open>Sub\<close>
  returns a Duration, whose range ends at \<open>2^63 - 1\<close> nanoseconds. For the hypertable
  whose oldest row is of the year 1 the upsert succeeds and records 1048576 bytes
  over the longest Duration, about 106752 days, and not over the 738838 days that
  lie between the two instants.
\<close>

theorem upsert_bytes_per_day_counterexample:
  "snd (upsert legacy_worker ''src'' ''legacy'' (Some 1048576)) = Returned None
   \<and> map bytes_per_day (usage (conn (fst (upsert legacy_worker ''src'' ''legacy'' (Some 1048576)))))
       = [1048576 / (9223372036854775807 / 86400000000000)]
   \<and> (1048576 / (9223372036854775807 / 86400000000000) :: real)
       \<noteq> 1048576
          / (real_of_int (1700000000000000000 - (- 62135596800000000000)) / 86400000000000)"
  by (simp add: legacy_worker_def legacy_pool_def sensor_config_def model_defs)

text \<open>
  Claim C1, amended. An upsert of an object with size \<open>S\<close> at time \<open>Tn\<close>, where \<open>T0\<close> is
  the earliest value of the object's \<open>time\<close> column, or \<open>Tn\<close> itself when the object has
  no rows, returns without error or panic and leaves the row of the object with
  \<open>bytes_per_day = S / age\<close> when the age is not zero and with \<open>bytes_per_day = 0\<close>
  when it is. The age is \<open>now.Sub(firstDate).Hours() / 24\<close>: the difference \<open>Tn - T0\<close>,
  kept within the range of a Duration, in days. It is zero exactly when \<open>Tn = T0\<close>,
  and it is \<open>Tn - T0\<close> in days whenever that difference fits into a Duration (about
  292 years either way).
\<close>

theorem upsert_bytes_per_day:
  assumes "relations (conn w) (schema, table) = Some (map TsTime ts)"
    and "set (take 2 (faults (conn w))) \<subseteq> {None}"
    and "Tn = wallclock w"
    and "T0 = (if ts = [] then Tn else Min (set ts))"
    and "S = (case size' of None \<Rightarrow> 0 | Some n \<Rightarrow> n)"
    and "age = Duration_Hours (time_Sub Tn T0) / 24"
  shows "(\<exists>w'. upsert w schema table size' = (w', Returned None)
            \<and> find (\<lambda>r. table_name r = table) (usage (conn w'))
                = Some \<lparr>table_name = table, bytes = S, updated_at = Format_RFC3339 Tn,
                        bytes_per_day = (if age = 0 then 0 else real_of_int S / age)\<rparr>)
         \<and> (age = 0 \<longleftrightarrow> Tn = T0)
         \<and> age = real_of_int (max minDuration (min maxDuration (Tn - T0))) / 86400000000000
         \<and> (minDuration \<le> Tn - T0 \<and> Tn - T0 \<le> maxDuration
              \<longrightarrow> age = real_of_int (Tn - T0) / 86400000000000)"
proof -
  let ?bpd = "if age \<noteq> 0 then real_of_int S / age else 0"
  let ?row = "\<lparr>table_name = table, bytes = S, updated_at = Format_RFC3339 (wallclock w),
               bytes_per_day = ?bpd\<rparr>"
  have first: "first_time (map TsTime ts) = None \<and> T0 = wallclock w
      \<or> first_time (map TsTime ts) = Some (TsTime T0)"
    using assms(3,4) by (simp add: first_time_instants)
  have age: "age = Duration_Hours (time_Sub (wallclock w) T0) / 24"
    using assms(3,6) by simp
  note up = upsert_measured [OF assms(2) assms(1) first assms(5) age refl]
  have "find (\<lambda>r. table_name r = table_name ?row) (insert_on_conflict (usage (conn w)) ?row)
      = Some ?row"
    by (rule find_insert_on_conflict)
  then have found: "find (\<lambda>r. table_name r = table) (insert_on_conflict (usage (conn w)) ?row)
      = Some ?row"
    by simp
  have 1: "\<exists>w'. upsert w schema table size' = (w', Returned None)
            \<and> find (\<lambda>r. table_name r = table) (usage (conn w'))
                = Some \<lparr>table_name = table, bytes = S, updated_at = Format_RFC3339 Tn,
                        bytes_per_day = (if age = 0 then 0 else real_of_int S / age)\<rparr>"
    unfolding up using found assms(3) by auto
  have 2: "age = 0 \<longleftrightarrow> Tn = T0"
    unfolding assms(6) Duration_Hours_eq by (simp add: time_Sub_zero_iff)
  have 3: "minDuration \<le> Tn - T0 \<and> Tn - T0 \<le> maxDuration
              \<longrightarrow> age = real_of_int (Tn - T0) / 86400000000000"
    unfolding assms(6) Duration_Hours_eq by (simp add: time_Sub_exact)
  have 4: "age = real_of_int (max minDuration (min maxDuration (Tn - T0))) / 86400000000000"
    unfolding assms(6) Duration_Hours_eq
    by (simp add: time_Sub_def Let_def minDuration_def maxDuration_def)
  from 1 2 3 4 show ?thesis by blast
qed

text \<open>
  The scenario of the spec: \<open>sensor_data\<close> in schema \<open>src\<close>, 1048576 bytes, first row two
  days before now, gives 524288 bytes per day.
\<close>

theorem upsert_bytes_per_day_witness:
  "\<exists>w'. upsert sensor_worker ''src'' ''sensor_data'' (Some 1048576) = (w', Returned None)
     \<and> find (\<lambda>r. table_name r = ''sensor_data'') (usage (conn w'))
         = Some \<lparr>table_name = ''sensor_data'', bytes = 1048576, updated_at = 1700000000,
                 bytes_per_day = 524288\<rparr>"
proof -
  have rel: "relations (conn sensor_worker) (''src'', ''sensor_data'')
      = Some (map TsTime [1699913600000000000, 1699827200000000000])"
    by (simp add: sensor_worker_def sensor_pool_def)
  have ok: "set (take 2 (faults (conn sensor_worker))) \<subseteq> {None}"
    by (simp add: sensor_worker_def sensor_pool_def)
  have T0: "(1699827200000000000 :: int)
      = (if [1699913600000000000, 1699827200000000000 :: int] = [] then 1700000000000000000
         else Min (set [1699913600000000000, 1699827200000000000]))"
    by simp
  have now: "(1700000000000000000 :: int) = wallclock sensor_worker"
    by (simp add: sensor_worker_def)
  have S: "(1048576 :: int) = (case Some 1048576 of None \<Rightarrow> 0 | Some n \<Rightarrow> n)"
    by simp
  have age: "(2 :: real) = Duration_Hours (time_Sub 1700000000000000000 1699827200000000000) / 24"
    by (simp add: Duration_Hours_eq time_Sub_def minDuration_def maxDuration_def)
  from upsert_bytes_per_day [OF rel ok now T0 S age]
  show ?thesis by (simp add: Format_RFC3339_def)
qed




text \<open>
  Claim C4. When a cycle has completed its reconciliation, that is when \<open>run\<close> returns
  \<open>nil\<close>, every row of the usage table names a hypertable or a continuous aggregate
  that the catalog lists in the configured source schema.
\<close>

theorem reconciled_store_within_catalog:
  assumes "run w = (w', Returned None)"
  shows "\<forall>r \<in> set (usage (conn w')).
           table_name r \<in> set (names_in_schema (PostgresSourceSchema (config w'))
                                  (hypertables (conn w')))
                          \<union> set (names_in_schema (PostgresSourceSchema (config w'))
                                  (continuous_aggregates (conn w')))"
proof -
  obtain c where c: "usage (conn w') = delete_outdated c (PostgresSourceSchema (config w'))"
      "hypertables c = hypertables (conn w')"
      "continuous_aggregates c = continuous_aggregates (conn w')"
    using run_reconciled [OF assms] by blast
  show ?thesis
    unfolding c(1) delete_outdated_def c(2) c(3) by auto
qed

text \<open>
  A cycle on the example database: the row of \<open>old_table\<close>, which the catalog no longer
  lists, is gone, and the three rows left are those of the listed objects.
\<close>

theorem reconciled_store_within_catalog_witness:
  "\<exists>w'. run mixed_worker = (w', Returned None)
     \<and> map table_name (usage (conn w')) = [''sensor_data'', ''new_table'', ''forecast'']
     \<and> names_in_schema (PostgresSourceSchema (config w')) (hypertables (conn w'))
         = [''sensor_data'', ''new_table'']
     \<and> names_in_schema (PostgresSourceSchema (config w')) (continuous_aggregates (conn w'))
         = [''forecast'']"
  using reconciled_store_within_catalog [OF run_mixed_worker]
  unfolding run_mixed_worker
  by (simp add: mixed_worker_def mixed_pool_def sensor_config_def names_in_schema_def)

text \<open>
  Claim C7. The upsert statement of the usage table is idempotent: when the same
  statement (name, size, time, rate) is executed twice, the second execution leaves
  the table as the first one did, and the row of that name holds the values of the
  statement. The column \<open>table\<close> is the primary key: in a table whose keys are
  distinct the keys stay distinct and exactly one row has that name.
\<close>

theorem usage_upsert_idempotent:
  assumes "Exec c (InsertUsage us name b upd rate) = (c1, None)"
    and "Exec c1 (InsertUsage us name b upd rate) = (c2, None)"
  shows "usage c2 = usage c1
    \<and> find (\<lambda>r. table_name r = name) (usage c2)
        = Some \<lparr>table_name = name, bytes = b, updated_at = upd, bytes_per_day = rate\<rparr>
    \<and> (distinct (map table_name (usage c)) \<longrightarrow>
         distinct (map table_name (usage c2))
         \<and> filter (\<lambda>r. table_name r = name) (usage c2)
             = [\<lparr>table_name = name, bytes = b, updated_at = upd, bytes_per_day = rate\<rparr>])"
proof -
  let ?row = "\<lparr>table_name = name, bytes = b, updated_at = upd, bytes_per_day = rate\<rparr>"
  have u1: "usage c1 = insert_on_conflict (usage c) ?row"
    using Exec_InsertUsage_succeeded [OF assms(1)] .
  have u2: "usage c2 = insert_on_conflict (usage c1) ?row"
    using Exec_InsertUsage_succeeded [OF assms(2)] .
  have same: "usage c2 = usage c1"
    unfolding u2 u1 by (rule insert_on_conflict_idem)
  have "find (\<lambda>r. table_name r = table_name ?row) (insert_on_conflict (usage c) ?row) = Some ?row"
    by (rule find_insert_on_conflict)
  then have found: "find (\<lambda>r. table_name r = name) (usage c2) = Some ?row"
    unfolding same u1 by simp
  have "distinct (map table_name (usage c2)) \<and> filter (\<lambda>r. table_name r = name) (usage c2) = [?row]"
    if d: "distinct (map table_name (usage c))"
  proof -
    have "distinct (map table_name (usage c2))"
      unfolding same u1 using insert_on_conflict_distinct [OF d] .
    then show ?thesis using filter_key_distinct [OF _ found] by simp
  qed
  with same found show ?thesis by blast
qed

text \<open>The statement executed twice on the example database, for a name it holds.\<close>

theorem usage_upsert_idempotent_witness:
  "\<exists>c1 c2. Exec mixed_pool (InsertUsage ''usage'' ''old_table'' 7 1700000000 3) = (c1, None)
     \<and> Exec c1 (InsertUsage ''usage'' ''old_table'' 7 1700000000 3) = (c2, None)
     \<and> usage c2 = usage c1
     \<and> usage c2 = [\<lparr>table_name = ''old_table'', bytes = 7, updated_at = 1700000000,
                      bytes_per_day = 3\<rparr>]"
proof -
  let ?stmt = "InsertUsage ''usage'' ''old_table'' 7 1700000000 3"
  let ?u = "[\<lparr>table_name = ''old_table'', bytes = 7, updated_at = 1700000000,
              bytes_per_day = 3\<rparr>]"
  let ?c1 = "mixed_pool\<lparr>sent := [?stmt], usage := ?u\<rparr>"
  let ?c2 = "mixed_pool\<lparr>sent := [?stmt, ?stmt], usage := ?u\<rparr>"
  have 1: "Exec mixed_pool ?stmt = (?c1, None)"
    by (simp add: mixed_pool_def model_defs)
  have 2: "Exec ?c1 ?stmt = (?c2, None)"
    by (simp add: mixed_pool_def model_defs)
  from usage_upsert_idempotent [OF 1 2] have "usage ?c2 = usage ?c1" by blast
  with 1 2 show ?thesis by (intro exI [of _ ?c1] exI [of _ ?c2]) simp
qed

text \<open>
  Claim C9. An object whose approximate size is NULL is upserted exactly as an object
  of size zero. Where the relation exists and the two round trips go through, the
  upsert returns without error, the row of the object records zero bytes and zero
  bytes per day, and the gauge of the object is zero.
\<close>

theorem null_size_is_zero_bytes:
  "upsert w schema table None = upsert w schema table (Some 0)
   \<and> (relations (conn w) (schema, table) = Some (map TsTime ts)
        \<and> set (take 2 (faults (conn w))) \<subseteq> {None}
      \<longrightarrow> (\<exists>w'. upsert w schema table None = (w', Returned None)
             \<and> find (\<lambda>r. table_name r = table) (usage (conn w'))
                 = Some \<lparr>table_name = table, bytes = 0,
                         updated_at = Format_RFC3339 (wallclock w), bytes_per_day = 0\<rparr>
             \<and> bytesMetrics w' table = Some 0))"
proof -
  have eq: "upsert w schema table None = upsert w schema table (Some 0)"
    by (simp add: upsert_def)
  have "\<exists>w'. upsert w schema table None = (w', Returned None)
             \<and> find (\<lambda>r. table_name r = table) (usage (conn w'))
                 = Some \<lparr>table_name = table, bytes = 0,
                         updated_at = Format_RFC3339 (wallclock w), bytes_per_day = 0\<rparr>
             \<and> bytesMetrics w' table = Some 0"
    if rel: "relations (conn w) (schema, table) = Some (map TsTime ts)"
      and ok: "set (take 2 (faults (conn w))) \<subseteq> {None}"
  proof -
    define T0 where "T0 = (if ts = [] then wallclock w else Min (set ts))"
    define days where "days = Duration_Hours (time_Sub (wallclock w) T0) / 24"
    let ?row = "\<lparr>table_name = table, bytes = 0, updated_at = Format_RFC3339 (wallclock w),
                 bytes_per_day = 0 :: real\<rparr>"
    have first: "first_time (map TsTime ts) = None \<and> T0 = wallclock w
        \<or> first_time (map TsTime ts) = Some (TsTime T0)"
      unfolding T0_def by (simp add: first_time_instants)
    have S: "(0 :: int) = (case None of None \<Rightarrow> 0 | Some n \<Rightarrow> n)" by simp
    have bpd: "(0 :: real) = (if days \<noteq> 0 then real_of_int 0 / days else 0)" by simp
    note up = upsert_measured [OF ok rel first S days_def bpd]
    have "find (\<lambda>r. table_name r = table_name ?row) (insert_on_conflict (usage (conn w)) ?row)
        = Some ?row"
      by (rule find_insert_on_conflict)
    then show ?thesis unfolding up by simp
  qed
  with eq show ?thesis by blast
qed

text \<open>The new, empty table of the example database, whose size is NULL.\<close>

theorem null_size_is_zero_bytes_witness:
  "\<exists>w'. upsert mixed_worker ''src'' ''new_table'' None = (w', Returned None)
     \<and> find (\<lambda>r. table_name r = ''new_table'') (usage (conn w'))
         = Some \<lparr>table_name = ''new_table'', bytes = 0, updated_at = 1700000000,
                 bytes_per_day = 0\<rparr>
     \<and> bytesMetrics w' ''new_table'' = Some 0"
proof -
  have rel: "relations (conn mixed_worker) (''src'', ''new_table'') = Some (map TsTime [])"
    by (simp add: mixed_worker_def mixed_pool_def)
  have ok: "set (take 2 (faults (conn mixed_worker))) \<subseteq> {None}"
    by (simp add: mixed_worker_def mixed_pool_def)
  have clock: "Format_RFC3339 (wallclock mixed_worker) = 1700000000"
    by (simp add: mixed_worker_def Format_RFC3339_def)
  from null_size_is_zero_bytes [of mixed_worker "''src''" "''new_table''" "[]"] rel ok
  show ?thesis unfolding clock by blast
qed

text \<open>
  Claim C10. When the earliest value of the \<open>time\<close> column lies after the current time
  and the size is positive, the age in days that \<open>upsert\<close> computes is negative, and
  the upsert succeeds and records a strictly negative \<open>bytes_per_day\<close>: neither the
  age nor the rate is checked for its sign.
\<close>

theorem future_first_timestamp_negative_rate:
  assumes "relations (conn w) (schema, table) = Some (map TsTime ts)"
    and "ts \<noteq> []"
    and "wallclock w < Min (set ts)"
    and "set (take 2 (faults (conn w))) \<subseteq> {None}"
    and "0 < S"
    and "days = Duration_Hours (time_Sub (wallclock w) (Min (set ts))) / 24"
  shows "days < 0
    \<and> (\<exists>w'. upsert w schema table (Some S) = (w', Returned None)
          \<and> find (\<lambda>r. table_name r = table) (usage (conn w'))
              = Some \<lparr>table_name = table, bytes = S,
                      updated_at = Format_RFC3339 (wallclock w),
                      bytes_per_day = real_of_int S / days\<rparr>
          \<and> real_of_int S / days < 0)"
proof -
  let ?row = "\<lparr>table_name = table, bytes = S, updated_at = Format_RFC3339 (wallclock w),
               bytes_per_day = real_of_int S / days\<rparr>"
  have neg: "days < 0"
    unfolding assms(6) Duration_Hours_eq using time_Sub_negative [OF assms(3)] by simp
  have first: "first_time (map TsTime ts) = None \<and> Min (set ts) = wallclock w
      \<or> first_time (map TsTime ts) = Some (TsTime (Min (set ts)))"
    using assms(2) by (simp add: first_time_instants)
  have S: "S = (case Some S of None \<Rightarrow> 0 | Some n \<Rightarrow> n)" by simp
  have bpd: "real_of_int S / days = (if days \<noteq> 0 then real_of_int S / days else 0)"
    using neg by simp
  note up = upsert_measured [OF assms(4) assms(1) first S assms(6) bpd]
  have "find (\<lambda>r. table_name r = table_name ?row) (insert_on_conflict (usage (conn w)) ?row)
      = Some ?row"
    by (rule find_insert_on_conflict)
  moreover have "real_of_int S / days < 0"
    using neg assms(5) by (simp add: divide_pos_neg)
  ultimately show ?thesis using neg unfolding up by simp
qed

text \<open>
  The object \<open>forecast\<close> of the example database, 4096 bytes, first value one day
  ahead: minus 4096 bytes per day.
\<close>

theorem future_first_timestamp_negative_rate_witness:
  "\<exists>w'. upsert mixed_worker ''src'' ''forecast'' (Some 4096) = (w', Returned None)
     \<and> find (\<lambda>r. table_name r = ''forecast'') (usage (conn w'))
         = Some \<lparr>table_name = ''forecast'', bytes = 4096, updated_at = 1700000000,
                 bytes_per_day = - 4096\<rparr>"
proof -
  have rel: "relations (conn mixed_worker) (''src'', ''forecast'')
      = Some (map TsTime [1700086400000000000])"
    by (simp add: mixed_worker_def mixed_pool_def)
  have ne: "[1700086400000000000 :: int] \<noteq> []" by simp
  have future: "wallclock mixed_worker < Min (set [1700086400000000000])"
    by (simp add: mixed_worker_def)
  have ok: "set (take 2 (faults (conn mixed_worker))) \<subseteq> {None}"
    by (simp add: mixed_worker_def mixed_pool_def)
  have pos: "(0 :: int) < 4096" by simp
  have days: "(- 1 :: real)
      = Duration_Hours (time_Sub (wallclock mixed_worker) (Min (set [1700086400000000000]))) / 24"
    by (simp add: mixed_worker_def Duration_Hours_eq time_Sub_def minDuration_def maxDuration_def)
  have clock: "Format_RFC3339 (wallclock mixed_worker) = 1700000000"
    by (simp add: mixed_worker_def Format_RFC3339_def)
  from future_first_timestamp_negative_rate [OF rel ne future ok pos days]
  show ?thesis unfolding clock by simp
qed

text \<open>
  Claim C6. The gauge of an object is overwritten with the new size exactly when the
  upsert statement of the object has succeeded, that is when \<open>upsert\<close> returns \<open>nil\<close>
  and the row with that size is in the usage table. When \<open>upsert\<close> returns an error or
  panics, the gauges and the usage table are as before. No cycle, reconciliation
  included, and no run of the ticker loop removes a gauge.
\<close>

theorem metric_snapshot_follows_upsert:
  "(upsert w schema table size' = (w', out) \<longrightarrow>
      (out = Returned None \<longrightarrow>
         bytesMetrics w' =
           (bytesMetrics w)(table \<mapsto> real_of_int (case size' of None \<Rightarrow> 0 | Some n \<Rightarrow> n))
         \<and> (\<exists>upd bpd. find (\<lambda>r. table_name r = table) (usage (conn w'))
               = Some \<lparr>table_name = table,
                       bytes = (case size' of None \<Rightarrow> 0 | Some n \<Rightarrow> n),
                       updated_at = upd, bytes_per_day = bpd\<rparr>))
      \<and> (out \<noteq> Returned None \<longrightarrow>
            bytesMetrics w' = bytesMetrics w \<and> usage (conn w') = usage (conn w)))
   \<and> (run w = (w', out) \<longrightarrow> dom (bytesMetrics w) \<subseteq> dom (bytesMetrics w'))
   \<and> (ticker_loop w cases = (w', res) \<longrightarrow> dom (bytesMetrics w) \<subseteq> dom (bytesMetrics w'))"
proof -
  let ?S = "case size' of None \<Rightarrow> 0 | Some n \<Rightarrow> n"
  have stored: "bytesMetrics w' = (bytesMetrics w)(table \<mapsto> real_of_int ?S)
      \<and> (\<exists>upd bpd. find (\<lambda>r. table_name r = table) (usage (conn w'))
            = Some \<lparr>table_name = table, bytes = ?S, updated_at = upd, bytes_per_day = bpd\<rparr>)"
    if up: "upsert w schema table size' = (w', out)" and ok: "out = Returned None"
    using upsert_result [of w schema table size']
  proof (elim disjE exE conjE)
    fix out'
    assume "upsert w schema table size' =
        (w\<lparr>conn := (conn w)\<lparr>sent := sent (conn w) @ [SelectFirstTime schema table],
                             faults := drop 1 (faults (conn w))\<rparr>\<rparr>, out')"
      and "out' \<noteq> Returned None"
    then show ?thesis using up ok by simp
  next
    fix bpd err
    assume "upsert w schema table size' =
        (w\<lparr>conn := (conn w)\<lparr>sent := sent (conn w) @ [SelectFirstTime schema table],
                faults := drop 1 (faults (conn w))\<rparr>
              \<lparr>sent := sent ((conn w)\<lparr>sent := sent (conn w) @ [SelectFirstTime schema table],
                   faults := drop 1 (faults (conn w))\<rparr>) @
                 [InsertUsage (PostgresUsageSchema (config w)) table ?S
                    (Format_RFC3339 (wallclock w)) bpd],
               faults := drop 1 (faults ((conn w)\<lparr>sent := sent (conn w) @ [SelectFirstTime schema table],
                   faults := drop 1 (faults (conn w))\<rparr>))\<rparr>,
           stdlog := stdlog w @ [Printf table ?S bpd]\<rparr>, Returned (Some err))"
    then show ?thesis using up ok by simp
  next
    fix bpd
    let ?row = "\<lparr>table_name = table, bytes = ?S, updated_at = Format_RFC3339 (wallclock w),
                 bytes_per_day = bpd\<rparr>"
    assume "upsert w schema table size' =
        (w\<lparr>conn := (conn w)\<lparr>sent := sent (conn w) @ [SelectFirstTime schema table],
                faults := drop 1 (faults (conn w))\<rparr>
              \<lparr>sent := sent ((conn w)\<lparr>sent := sent (conn w) @ [SelectFirstTime schema table],
                   faults := drop 1 (faults (conn w))\<rparr>) @
                 [InsertUsage (PostgresUsageSchema (config w)) table ?S
                    (Format_RFC3339 (wallclock w)) bpd],
               faults := drop 1 (faults ((conn w)\<lparr>sent := sent (conn w) @ [SelectFirstTime schema table],
                   faults := drop 1 (faults (conn w))\<rparr>)),
               usage := insert_on_conflict (usage ((conn w)\<lparr>sent := sent (conn w) @ [SelectFirstTime schema table],
                   faults := drop 1 (faults (conn w))\<rparr>)) ?row\<rparr>,
           stdlog := stdlog w @ [Printf table ?S bpd],
           bytesMetrics := (bytesMetrics w)(table \<mapsto> real_of_int ?S)\<rparr>, Returned None)"
    then have w': "bytesMetrics w' = (bytesMetrics w)(table \<mapsto> real_of_int ?S)"
        "usage (conn w') = insert_on_conflict (usage (conn w)) ?row"
      using up by auto
    have "find (\<lambda>r. table_name r = table_name ?row) (insert_on_conflict (usage (conn w)) ?row)
        = Some ?row"
      by (rule find_insert_on_conflict)
    then have "find (\<lambda>r. table_name r = table) (usage (conn w')) = Some ?row"
      unfolding w'(2) by simp
    with w'(1) show ?thesis by blast
  qed
  have failed: "bytesMetrics w' = bytesMetrics w \<and> usage (conn w') = usage (conn w)"
    if up: "upsert w schema table size' = (w', out)" and no: "out \<noteq> Returned None"
    using upsert_result [of w schema table size'] up no
    by (elim disjE exE conjE) auto
  have cycle: "dom (bytesMetrics w) \<subseteq> dom (bytesMetrics w')" if "run w = (w', out)"
    using run_frame [OF that] by blast
  have loop: "dom (bytesMetrics w) \<subseteq> dom (bytesMetrics w')"
    if "ticker_loop w cases = (w', res)"
    using ticker_loop_gauges [OF that] .
  from stored failed cycle loop show ?thesis by blast
qed

text \<open>
  The upsert of \<open>sensor_data\<close> on the example database sets the gauge; with a
  connection that fails on the insert the gauge keeps its old value 7.
\<close>

theorem metric_snapshot_follows_upsert_witness:
  "(\<exists>w'. upsert mixed_worker ''src'' ''sensor_data'' (Some 1048576) = (w', Returned None)
       \<and> bytesMetrics w' = [''sensor_data'' \<mapsto> 1048576])
   \<and> (\<exists>w'. upsert (mixed_worker\<lparr>conn := mixed_pool\<lparr>faults := [None, Some (OtherError ''connection reset'')]\<rparr>,
                                 bytesMetrics := [''sensor_data'' \<mapsto> 7]\<rparr>)
               ''src'' ''sensor_data'' (Some 1048576)
             = (w', Returned (Some (OtherError ''connection reset'')))
       \<and> bytesMetrics w' = [''sensor_data'' \<mapsto> 7]
       \<and> usage (conn w') = usage mixed_pool)"
proof -
  let ?f = "mixed_worker\<lparr>conn := mixed_pool\<lparr>faults := [None, Some (OtherError ''connection reset'')]\<rparr>,
                         bytesMetrics := [''sensor_data'' \<mapsto> 7]\<rparr>"
  obtain w1 out1 where 1: "upsert mixed_worker ''src'' ''sensor_data'' (Some 1048576) = (w1, out1)"
    by (cases "upsert mixed_worker ''src'' ''sensor_data'' (Some 1048576)") auto
  have o1: "out1 = Returned None"
    using 1 by (simp add: mixed_worker_def mixed_pool_def model_defs)
  obtain w2 out2 where 2: "upsert ?f ''src'' ''sensor_data'' (Some 1048576) = (w2, out2)"
    by (cases "upsert ?f ''src'' ''sensor_data'' (Some 1048576)") auto
  have o2: "out2 = Returned (Some (OtherError ''connection reset''))"
    using 2 by (simp add: mixed_worker_def mixed_pool_def model_defs)
  have m1: "bytesMetrics w1 = [''sensor_data'' \<mapsto> 1048576]"
    using metric_snapshot_follows_upsert [of mixed_worker "''src''" "''sensor_data''"
        "Some 1048576" w1 out1] 1 o1
    by (simp add: mixed_worker_def)
  have m2: "bytesMetrics w2 = [''sensor_data'' \<mapsto> 7] \<and> usage (conn w2) = usage mixed_pool"
    using metric_snapshot_follows_upsert [of ?f "''src''" "''sensor_data''"
        "Some 1048576" w2 out2] 2 o2
    by simp
  from 1 o1 m1 2 o2 m2 show ?thesis by simp
qed

text \<open>
  Claim C5. The statements that a cycle sends follow the fixed order, whatever
  happens: the listing of the hypertables, the statements of their upserts, the
  listing of the continuous aggregates, the statements of their upserts, the delete,
  and at most one delete. With zero failures, for \<open>N\<close> hypertables and \<open>M\<close> continuous
  aggregates listed, the cycle returns \<open>nil\<close>; the upserts attempted between the two
  listings are those of the hypertables, in the order listed, the ones after the
  second listing are those of the continuous aggregates; there are \<open>N + M\<close> attempts
  in all, and exactly one delete, sent last.
\<close>

theorem cycle_order_and_counts:
  "(run w = (w', out) \<longrightarrow>
      (\<exists>tr. sent (conn w') = sent (conn w) @ tr \<and> follows_order 0 tr
            \<and> length (filter is_delete tr) \<le> 1))
   \<and> (zero_failures (conn w) \<longrightarrow>
      (\<exists>w2 trT trV.
          run w = (w2, Returned None)
        \<and> sent (conn w2) = sent (conn w) @
             SelectHypertables # trT @ SelectContinuousAggregates # trV @
             [DeleteOutdated (PostgresUsageSchema (config w)) (PostgresSourceSchema (config w))]
        \<and> list_all is_upsert_statement trT
        \<and> filter is_upsert_attempt trT = map attempt_of (hypertables (conn w))
        \<and> list_all is_upsert_statement trV
        \<and> filter is_upsert_attempt trV = map attempt_of (continuous_aggregates (conn w))
        \<and> length (filter is_upsert_attempt
             (SelectHypertables # trT @ SelectContinuousAggregates # trV @
              [DeleteOutdated (PostgresUsageSchema (config w)) (PostgresSourceSchema (config w))]))
            = length (hypertables (conn w)) + length (continuous_aggregates (conn w))
        \<and> length (filter is_delete
             (SelectHypertables # trT @ SelectContinuousAggregates # trV @
              [DeleteOutdated (PostgresUsageSchema (config w)) (PostgresSourceSchema (config w))]))
            = 1))"
proof -
  have general: "\<exists>tr. sent (conn w') = sent (conn w) @ tr \<and> follows_order 0 tr
            \<and> length (filter is_delete tr) \<le> 1" if "run w = (w', out)"
    using run_frame [OF that] by blast
  have clean: "\<exists>w2 trT trV.
          run w = (w2, Returned None)
        \<and> sent (conn w2) = sent (conn w) @
             SelectHypertables # trT @ SelectContinuousAggregates # trV @
             [DeleteOutdated (PostgresUsageSchema (config w)) (PostgresSourceSchema (config w))]
        \<and> list_all is_upsert_statement trT
        \<and> filter is_upsert_attempt trT = map attempt_of (hypertables (conn w))
        \<and> list_all is_upsert_statement trV
        \<and> filter is_upsert_attempt trV = map attempt_of (continuous_aggregates (conn w))
        \<and> length (filter is_upsert_attempt
             (SelectHypertables # trT @ SelectContinuousAggregates # trV @
              [DeleteOutdated (PostgresUsageSchema (config w)) (PostgresSourceSchema (config w))]))
            = length (hypertables (conn w)) + length (continuous_aggregates (conn w))
        \<and> length (filter is_delete
             (SelectHypertables # trT @ SelectContinuousAggregates # trV @
              [DeleteOutdated (PostgresUsageSchema (config w)) (PostgresSourceSchema (config w))]))
            = 1" if z: "zero_failures (conn w)"
  proof -
    let ?del = "DeleteOutdated (PostgresUsageSchema (config w)) (PostgresSourceSchema (config w))"
    obtain w2 trT trV where r: "run w = (w2, Returned None)"
        "sent (conn w2) = sent (conn w) @
           SelectHypertables # trT @ SelectContinuousAggregates # trV @ [?del]"
        "list_all is_upsert_statement trT"
        "filter is_upsert_attempt trT = map attempt_of (hypertables (conn w))"
        "list_all is_upsert_statement trV"
        "filter is_upsert_attempt trV = map attempt_of (continuous_aggregates (conn w))"
      using run_zero_failures [OF z] by blast
    have n: "length (filter is_upsert_attempt
          (SelectHypertables # trT @ SelectContinuousAggregates # trV @ [?del]))
        = length (hypertables (conn w)) + length (continuous_aggregates (conn w))"
      using r(4,6) by simp
    have d: "length (filter is_delete
          (SelectHypertables # trT @ SelectContinuousAggregates # trV @ [?del])) = 1"
      using no_delete_in_upserts [OF r(3)] no_delete_in_upserts [OF r(5)] by simp
    from r n d show ?thesis by blast
  qed
  from general clean show ?thesis by blast
qed

text \<open>A cycle on the example database, with two hypertables and one continuous aggregate.\<close>

theorem cycle_order_and_counts_witness:
  "\<exists>w'. run mixed_worker = (w', Returned None)
     \<and> sent (conn w') =
         [SelectHypertables,
          SelectFirstTime ''src'' ''sensor_data'',
          InsertUsage ''usage'' ''sensor_data'' 1048576 1700000000 524288,
          SelectFirstTime ''src'' ''new_table'',
          InsertUsage ''usage'' ''new_table'' 0 1700000000 0,
          SelectContinuousAggregates,
          SelectFirstTime ''src'' ''forecast'',
          InsertUsage ''usage'' ''forecast'' 4096 1700000000 (- 4096),
          DeleteOutdated ''usage'' ''src'']
     \<and> follows_order 0 (sent (conn w'))
     \<and> length (filter is_upsert_attempt (sent (conn w'))) = 2 + 1
     \<and> length (filter is_delete (sent (conn w'))) = 1"
proof -
  have z: "zero_failures (conn mixed_worker)"
    by (simp add: zero_failures_def time_column_ok_def first_time_def mixed_worker_def
        mixed_pool_def)
  from cycle_order_and_counts [of mixed_worker] z
  have "\<exists>w2. run mixed_worker = (w2, Returned None)" by blast
  then show ?thesis
    unfolding run_mixed_worker by (simp add: mixed_worker_def mixed_pool_def)
qed

text \<open>
  Claim C8. One-shot mode: with no interval configured, once the pool is connected
  and \<open>migrate\<close> has returned, \<open>Start\<close> runs one cycle, exactly one, and returns what
  that cycle returns; with zero failures this is \<open>nil\<close>.
\<close>

theorem one_shot_single_cycle:
  assumes "length (Duration cfg) = 0"
    and "set (take 2 (faults pool)) \<subseteq> {None}"
  shows "\<exists>w' out. run (started cfg pool clock) = (w', out)
      \<and> Start ParseDuration ctx cfg pool clock = (w', Some out)
      \<and> cycles_started w' = 1
      \<and> (zero_failures pool \<longrightarrow> out = Returned None)"
proof -
  obtain w' out where r: "run (started cfg pool clock) = (w', out)"
    by (cases "run (started cfg pool clock)") auto
  have s: "Start ParseDuration ctx cfg pool clock = (w', Some out)"
    unfolding Start_connected [OF assms(2)] using assms(1) r by simp
  have c: "cycles_started w' = 1"
    using run_frame [OF r] cycles_started_started by simp
  have "out = Returned None" if "zero_failures pool"
    using run_zero_failures [OF zero_failures_started [OF that], of cfg clock] r by auto
  with r s c show ?thesis by blast
qed

text \<open>One-shot mode on the example database.\<close>

theorem one_shot_single_cycle_witness:
  "\<exists>w'. Start (\<lambda>s. Inl (OtherError ''time: invalid duration'')) [] sensor_config mixed_pool
          1700000000000000000 = (w', Some (Returned None))
     \<and> cycles_started w' = 1"
proof -
  have len: "length (Duration sensor_config) = 0"
    by (simp add: sensor_config_def)
  have ok: "set (take 2 (faults mixed_pool)) \<subseteq> {None}"
    by (simp add: mixed_pool_def)
  have z: "zero_failures mixed_pool"
    by (simp add: zero_failures_def time_column_ok_def first_time_def mixed_pool_def)
  from one_shot_single_cycle [OF len ok] z show ?thesis by blast
qed

text \<open>
  Claim C3. Repeating mode: with an interval configured that parses to a positive
  duration, once the pool is connected and \<open>migrate\<close> has returned, \<open>Start\<close> runs one
  cycle at once; an error or panic of that cycle is the result of \<open>Start\<close>, otherwise
  the loop takes over. A tick runs one more cycle, whose error or panic ends the loop
  as its result. The cancellation returns \<open>nil\<close> and leaves the worker as it is: no
  cycle is started. So when the cancellation comes after \<open>n\<close> ticks, \<open>Start\<close> always
  returns: either \<open>nil\<close> after exactly \<open>n + 1\<close> cycles, or the error or panic of a cycle,
  after at most \<open>n + 1\<close> cycles; and with zero failures it is \<open>nil\<close> after \<open>n + 1\<close> cycles.
\<close>

theorem repeating_mode_scheduler:
  assumes "length (Duration cfg) \<noteq> 0"
    and "ParseDuration (Duration cfg) = Inr d"
    and "0 < d"
    and "set (take 2 (faults pool)) \<subseteq> {None}"
  shows "Start ParseDuration ctx cfg pool clock =
      (case run (started cfg pool clock) of
         (w1, Returned None) \<Rightarrow> ticker_loop w1 ctx
       | (w1, out) \<Rightarrow> (w1, Some out))
    \<and> (\<forall>w rest. ticker_loop w (TickerC # rest) =
          (case run w of
             (w1, Returned None) \<Rightarrow> ticker_loop w1 rest
           | (w1, out) \<Rightarrow> (w1, Some out)))
    \<and> (\<forall>w rest. ticker_loop w (CtxDone # rest) = (w, Some (Returned None)))
    \<and> (\<forall>n rest w' res.
          Start ParseDuration (replicate n TickerC @ CtxDone # rest) cfg pool clock = (w', res)
          \<longrightarrow> (res = Some (Returned None) \<and> cycles_started w' = n + 1)
              \<or> (((\<exists>e. res = Some (Returned (Some e))) \<or> (\<exists>p. res = Some (Panicked p)))
                 \<and> 1 \<le> cycles_started w' \<and> cycles_started w' \<le> n + 1))
    \<and> (zero_failures pool \<longrightarrow>
          (\<forall>n rest. \<exists>w'.
             Start ParseDuration (replicate n TickerC @ CtxDone # rest) cfg pool clock
               = (w', Some (Returned None))
             \<and> cycles_started w' = n + 1))"
proof -
  have start: "Start ParseDuration ctx cfg pool clock =
      (case run (started cfg pool clock) of
         (w1, Returned None) \<Rightarrow> ticker_loop w1 ctx
       | (w1, out) \<Rightarrow> (w1, Some out))" for ctx
    unfolding Start_connected [OF assms(4)] using assms(1,2,3) by simp
  have tick: "ticker_loop w (TickerC # rest) =
          (case run w of
             (w1, Returned None) \<Rightarrow> ticker_loop w1 rest
           | (w1, out) \<Rightarrow> (w1, Some out))" for w rest
    by simp
  have cancel: "ticker_loop w (CtxDone # rest) = (w, Some (Returned None))" for w rest
    by simp
  have count: "(res = Some (Returned None) \<and> cycles_started w' = n + 1)
      \<or> (((\<exists>e. res = Some (Returned (Some e))) \<or> (\<exists>p. res = Some (Panicked p)))
         \<and> 1 \<le> cycles_started w' \<and> cycles_started w' \<le> n + 1)"
    if s: "Start ParseDuration (replicate n TickerC @ CtxDone # rest) cfg pool clock = (w', res)"
    for n rest w' res
  proof -
    have "ticker_loop (started cfg pool clock) (replicate (Suc n) TickerC @ CtxDone # rest)
        = (w', res)"
      using s unfolding start by simp
    from ticker_loop_cancel [OF this] show ?thesis
      unfolding cycles_started_started by auto
  qed
  have clean: "\<exists>w'. Start ParseDuration (replicate n TickerC @ CtxDone # rest) cfg pool clock
               = (w', Some (Returned None))
             \<and> cycles_started w' = n + 1" if z: "zero_failures pool" for n rest
  proof -
    have "Start ParseDuration (replicate n TickerC @ CtxDone # rest) cfg pool clock =
        ticker_loop (started cfg pool clock) (replicate (Suc n) TickerC @ CtxDone # rest)"
      unfolding start by simp
    then show ?thesis
      using ticker_loop_zero_failures [OF zero_failures_started [OF z], of cfg clock "Suc n" rest]
      unfolding cycles_started_started by simp
  qed
  from start tick cancel count clean show ?thesis by blast
qed

text \<open>
  An interval of one hour on the example database: two ticks and the cancellation
  give three cycles and \<open>nil\<close>, and the tick after the cancellation is not served. On
  a connection that fails at the first listing \<open>Start\<close> returns that error.
\<close>

theorem repeating_mode_scheduler_witness:
  "(\<exists>w'. Start (\<lambda>s. if s = ''1h'' then Inr 3600000000000
                     else Inl (OtherError ''time: invalid duration''))
            [TickerC, TickerC, CtxDone, TickerC]
            (sensor_config\<lparr>Duration := ''1h''\<rparr>) mixed_pool 1700000000000000000
          = (w', Some (Returned None))
      \<and> cycles_started w' = 3)
   \<and> (\<exists>w'. Start (\<lambda>s. if s = ''1h'' then Inr 3600000000000
                     else Inl (OtherError ''time: invalid duration''))
            [TickerC, CtxDone]
            (sensor_config\<lparr>Duration := ''1h''\<rparr>)
            (mixed_pool\<lparr>faults := [None, None, Some (OtherError ''connection reset'')]\<rparr>)
            1700000000000000000
          = (w', Some (Returned (Some (OtherError ''connection reset'')))))"
proof -
  let ?P = "\<lambda>s. if s = ''1h'' then Inr (3600000000000 :: int)
                 else Inl (OtherError ''time: invalid duration'')"
  let ?cfg = "sensor_config\<lparr>Duration := ''1h''\<rparr>"
  let ?bad = "mixed_pool\<lparr>faults := [None, None, Some (OtherError ''connection reset'')]\<rparr>"
  have len: "length (Duration ?cfg) \<noteq> 0" by simp
  have parse: "?P (Duration ?cfg) = Inr 3600000000000" by simp
  have pos: "(0 :: int) < 3600000000000" by simp
  have ok: "set (take 2 (faults mixed_pool)) \<subseteq> {None}"
    by (simp add: mixed_pool_def)
  have ok': "set (take 2 (faults ?bad)) \<subseteq> {None}"
    by (simp add: numeral_2_eq_2)
  have z: "zero_failures mixed_pool"
    by (simp add: zero_failures_def time_column_ok_def first_time_def mixed_pool_def)
  have "\<exists>w'. Start ?P (replicate 2 TickerC @ CtxDone # [TickerC]) ?cfg mixed_pool
        1700000000000000000 = (w', Some (Returned None)) \<and> cycles_started w' = 2 + 1"
    using repeating_mode_scheduler [where ParseDuration = ?P and cfg = ?cfg
        and d = 3600000000000 and pool = mixed_pool and ctx = "[]"
        and clock = 1700000000000000000, OF len parse pos ok] z
    by blast
  then have 1: "\<exists>w'. Start ?P [TickerC, TickerC, CtxDone, TickerC] ?cfg mixed_pool
        1700000000000000000 = (w', Some (Returned None)) \<and> cycles_started w' = 3"
    by (simp add: numeral_2_eq_2 numeral_3_eq_3)
  have "Start ?P [TickerC, CtxDone] ?cfg ?bad 1700000000000000000 =
      (case run (started ?cfg ?bad 1700000000000000000) of
         (w1, Returned None) \<Rightarrow> ticker_loop w1 [TickerC, CtxDone]
       | (w1, out) \<Rightarrow> (w1, Some out))"
    using repeating_mode_scheduler [where ParseDuration = ?P and cfg = ?cfg
        and d = 3600000000000 and pool = ?bad and ctx = "[TickerC, CtxDone]"
        and clock = 1700000000000000000, OF len parse pos ok']
    by blast
  then have 2: "\<exists>w'. Start ?P [TickerC, CtxDone] ?cfg ?bad 1700000000000000000
      = (w', Some (Returned (Some (OtherError ''connection reset''))))"
    by (simp add: started_def cycle_defs model_defs numeral_2_eq_2)
  from 1 2 show ?thesis by blast
qed

end
